theory Spec2Isabelle
  imports
    Main
    "HOL-Library.Log_Nat"
    "HOL-Library.Word"
    "HOL-Library.Sublist"
    "HOL-Library.AList"
    "HOL-Library.Multiset"
begin

section \<open>JavaScript values\<close>

subsection \<open>Strings\<close>

text \<open>
  A JavaScript string is a sequence of 16-bit code units. \<open>js\<close> writes an ASCII literal.
  \<open>trim\<close> removes the white space and line terminator code units of ECMAScript from both
  ends. \<open>includes_str\<close> is \<open>String.prototype.includes\<close>: the argument occurs as a contiguous
  run of code units.
\<close>

type_synonym code_unit = "16 word"

type_synonym jsstring = "code_unit list"

definition js :: "string \<Rightarrow> jsstring" where
  "js s = map (\<lambda>c. of_nat (of_char c)) s"

definition is_trim_space :: "code_unit \<Rightarrow> bool" where
  "is_trim_space c =
     (c \<in> set [0x9, 0xA, 0xB, 0xC, 0xD, 0x20, 0xA0, 0x1680,
               0x2000, 0x2001, 0x2002, 0x2003, 0x2004, 0x2005, 0x2006, 0x2007,
               0x2008, 0x2009, 0x200A, 0x2028, 0x2029, 0x202F, 0x205F, 0x3000, 0xFEFF])"

definition trim :: "jsstring \<Rightarrow> jsstring" where
  "trim s = rev (dropWhile is_trim_space (rev (dropWhile is_trim_space s)))"

definition includes_str :: "jsstring \<Rightarrow> jsstring \<Rightarrow> bool" where
  "includes_str s t = sublist t s"

subsection \<open>Numbers\<close>

text \<open>
  A JavaScript number is an IEEE 754 binary64 value. A finite value is kept as the exact
  rational it denotes; the two zeros are not told apart (no operation modelled here
  divides by a zero or prints its sign). Every arithmetic operation computes the exact
  rational result and rounds it with \<open>round64\<close>: to the nearest value with a 53-bit
  significand, ties to the even significand, exponent of the last place at least
  \<open>-1074\<close> (subnormal range), and to an infinity from \<open>2 ^ 1024\<close> on.
\<close>

datatype number = Fin rat | PInf | NInf | NaN

definition pow2 :: "int \<Rightarrow> rat" where
  "pow2 k = (if 0 \<le> k then 2 ^ nat k else 1 / 2 ^ nat (- k))"

definition ilog2 :: "rat \<Rightarrow> int" where
  "ilog2 a = (if 1 \<le> a then bitlen \<lfloor>a\<rfloor> - 1 else - bitlen (\<lceil>1 / a\<rceil> - 1))"

definition round_half_even :: "rat \<Rightarrow> int" where
  "round_half_even x =
     (let f = \<lfloor>x\<rfloor>; d = x - of_int f
      in if d < 1 / 2 then f else if 1 / 2 < d then f + 1 else if even f then f else f + 1)"

definition round64 :: "rat \<Rightarrow> number" where
  "round64 x =
     (if x = 0 then Fin 0
      else let a = \<bar>x\<bar>;
               q = max (ilog2 a - 52) (- 1074);
               y = of_int (round_half_even (a / pow2 q)) * pow2 q
           in if pow2 1024 \<le> y then (if 0 < x then PInf else NInf)
              else Fin (if 0 < x then y else - y))"

fun num_neg :: "number \<Rightarrow> number" where
  "num_neg (Fin x) = Fin (- x)"
| "num_neg PInf = NInf"
| "num_neg NInf = PInf"
| "num_neg NaN = NaN"

fun num_add :: "number \<Rightarrow> number \<Rightarrow> number" where
  "num_add NaN _ = NaN"
| "num_add _ NaN = NaN"
| "num_add (Fin a) (Fin b) = round64 (a + b)"
| "num_add PInf NInf = NaN"
| "num_add NInf PInf = NaN"
| "num_add PInf _ = PInf"
| "num_add _ PInf = PInf"
| "num_add NInf _ = NInf"
| "num_add _ NInf = NInf"

definition num_sub :: "number \<Rightarrow> number \<Rightarrow> number" where
  "num_sub a b = num_add a (num_neg b)"

fun num_mul :: "number \<Rightarrow> number \<Rightarrow> number" where
  "num_mul NaN _ = NaN"
| "num_mul _ NaN = NaN"
| "num_mul (Fin a) (Fin b) = round64 (a * b)"
| "num_mul (Fin a) PInf = (if a = 0 then NaN else if 0 < a then PInf else NInf)"
| "num_mul (Fin a) NInf = (if a = 0 then NaN else if 0 < a then NInf else PInf)"
| "num_mul PInf (Fin b) = (if b = 0 then NaN else if 0 < b then PInf else NInf)"
| "num_mul NInf (Fin b) = (if b = 0 then NaN else if 0 < b then NInf else PInf)"
| "num_mul PInf PInf = PInf"
| "num_mul NInf NInf = PInf"
| "num_mul PInf NInf = NInf"
| "num_mul NInf PInf = NInf"

text \<open>
  Division by a finite zero takes the zero as positive; the one division of the program
  (\<open>getBudgetData\<close>) is guarded by \<open>budget > 0\<close>.
\<close>

fun num_div :: "number \<Rightarrow> number \<Rightarrow> number" where
  "num_div NaN _ = NaN"
| "num_div _ NaN = NaN"
| "num_div (Fin a) (Fin b) =
     (if b = 0 then (if a = 0 then NaN else if 0 < a then PInf else NInf)
      else round64 (a / b))"
| "num_div (Fin a) PInf = Fin 0"
| "num_div (Fin a) NInf = Fin 0"
| "num_div PInf (Fin b) = (if b < 0 then NInf else PInf)"
| "num_div NInf (Fin b) = (if b < 0 then PInf else NInf)"
| "num_div PInf PInf = NaN"
| "num_div PInf NInf = NaN"
| "num_div NInf PInf = NaN"
| "num_div NInf NInf = NaN"

text \<open>The comparisons \<open><\<close>, \<open>>\<close>, \<open><=\<close>, \<open>>=\<close>: false as soon as an operand is NaN.\<close>

fun num_less :: "number \<Rightarrow> number \<Rightarrow> bool" where
  "num_less NaN _ = False"
| "num_less _ NaN = False"
| "num_less (Fin a) (Fin b) = (a < b)"
| "num_less (Fin a) PInf = True"
| "num_less NInf (Fin b) = True"
| "num_less NInf PInf = True"
| "num_less _ _ = False"

definition isNaN :: "number \<Rightarrow> bool" where
  "isNaN a = (a = NaN)"

definition num_greater :: "number \<Rightarrow> number \<Rightarrow> bool" where
  "num_greater a b = num_less b a"

definition num_le :: "number \<Rightarrow> number \<Rightarrow> bool" where
  "num_le a b = (\<not> isNaN a \<and> \<not> isNaN b \<and> \<not> num_less b a)"

definition num_ge :: "number \<Rightarrow> number \<Rightarrow> bool" where
  "num_ge a b = num_le b a"

text \<open>
  \<open>Math.max\<close> and \<open>Math.min\<close>: NaN as soon as an argument is NaN; \<open>Math.max()\<close> of no
  argument is \<open>-Infinity\<close>.
\<close>

definition max2 :: "number \<Rightarrow> number \<Rightarrow> number" where
  "max2 a b = (if isNaN a \<or> isNaN b then NaN else if num_less a b then b else a)"

definition min2 :: "number \<Rightarrow> number \<Rightarrow> number" where
  "min2 a b = (if isNaN a \<or> isNaN b then NaN else if num_less b a then b else a)"

definition Math_max :: "number list \<Rightarrow> number" where
  "Math_max xs = foldl max2 NInf xs"

text \<open>The operand of \<open>||\<close> is falsy when it is a zero or NaN.\<close>

definition truthy_number :: "number \<Rightarrow> bool" where
  "truthy_number a = (a \<noteq> Fin 0 \<and> a \<noteq> NaN)"


section \<open>The todo list page\<close>

subsection \<open>Data\<close>

datatype Category = Work | Personal | Shopping | Others | Home

datatype Priority = Critical | High | Medium | Low

text \<open>A filter is either \<open>'All'\<close> or one value of the filtered field.\<close>

datatype 'a filter_choice = All | Only 'a

text \<open>
  \<open>SimpleTask\<close> is the \<open>Task\<close> interface of the first version of the page (no priority);
  \<open>Task\<close> extends it with the priority, in the order of the object literal of \<open>add_task\<close>.
  An id is a reading of \<open>Date.now()\<close>: an integral number of milliseconds.
\<close>

record SimpleTask =
  task_id :: int
  task_text :: jsstring
  task_completed :: bool
  task_createdAt :: jsstring
  task_category :: Category

record Task = SimpleTask +
  task_priority :: Priority

text \<open>
  The state variables of the page (\<open>useState\<close>), in the order of the source. The first
  four are the state of the first version of the page. The type of the records is a
  parameter: the import puts parsed JSON values into \<open>tasks\<close>.
\<close>

record 't store =
  tasks :: "'t list"
  newTask :: jsstring
  selectedTaskId :: "int option"
  category :: Category

record 't todo_state = "'t store" +
  priority :: Priority
  searchTerm :: jsstring
  filterCategory :: "Category filter_choice"
  filterPriority :: "Priority filter_choice"
  showStatsDialog :: bool

definition todo_init :: "'t todo_state" where
  "todo_init =
     \<lparr>tasks = [], newTask = [], selectedTaskId = None, category = Work, priority = Medium,
      searchTerm = [], filterCategory = All, filterPriority = All, showStatsDialog = False\<rparr>"

subsection \<open>Sorting and filtering\<close>

text \<open>The \<open>default\<close> branch of the source (rank 4) has no value of type \<open>Priority\<close>.\<close>

fun getPriorityOrder :: "Priority \<Rightarrow> int" where
  "getPriorityOrder Critical = 0"
| "getPriorityOrder High = 1"
| "getPriorityOrder Medium = 2"
| "getPriorityOrder Low = 3"

text \<open>
  \<open>Array.prototype.sort\<close> with a comparator: ECMAScript requires a stable sort, and for a
  consistent comparator the stably sorted permutation is unique. It is computed here by
  insertion: an element goes before the first element it does not compare greater than.
\<close>

fun insert_by :: "('a \<Rightarrow> 'a \<Rightarrow> int) \<Rightarrow> 'a \<Rightarrow> 'a list \<Rightarrow> 'a list" where
  "insert_by cmp x [] = [x]"
| "insert_by cmp x (y # ys) = (if cmp x y \<le> 0 then x # y # ys else y # insert_by cmp x ys)"

definition array_sort :: "('a \<Rightarrow> 'a \<Rightarrow> int) \<Rightarrow> 'a list \<Rightarrow> 'a list" where
  "array_sort cmp xs = foldr (insert_by cmp) xs []"

definition sortTasksByPriority :: "Task todo_state \<Rightarrow> Task todo_state" where
  "sortTasksByPriority st =
     st\<lparr>tasks :=
          array_sort (\<lambda>a b. getPriorityOrder (task_priority a) - getPriorityOrder (task_priority b))
            (tasks st)\<rparr>"

definition matches_filter :: "'a filter_choice \<Rightarrow> 'a \<Rightarrow> bool" where
  "matches_filter f v = (case f of All \<Rightarrow> True | Only w \<Rightarrow> v = w)"

text \<open>\<open>String.prototype.toLowerCase\<close> is a parameter of the filters.\<close>

definition task_matches ::
    "(jsstring \<Rightarrow> jsstring) \<Rightarrow> jsstring \<Rightarrow> Category filter_choice \<Rightarrow> Priority filter_choice \<Rightarrow>
     Task \<Rightarrow> bool" where
  "task_matches toLowerCase search fc fp task =
     (let matchesSearch = includes_str (toLowerCase (task_text task)) (toLowerCase search);
          matchesCategory = matches_filter fc (task_category task);
          matchesPriority = matches_filter fp (task_priority task)
      in matchesSearch \<and> matchesCategory \<and> matchesPriority)"

definition filter_tasks ::
    "(jsstring \<Rightarrow> jsstring) \<Rightarrow> jsstring \<Rightarrow> Category filter_choice \<Rightarrow> Priority filter_choice \<Rightarrow>
     Task list \<Rightarrow> Task list" where
  "filter_tasks toLowerCase search fc fp ts = filter (task_matches toLowerCase search fc fp) ts"

definition getFilteredTasks :: "(jsstring \<Rightarrow> jsstring) \<Rightarrow> Task todo_state \<Rightarrow> Task list" where
  "getFilteredTasks toLowerCase st =
     filter_tasks toLowerCase (searchTerm st) (filterCategory st) (filterPriority st) (tasks st)"

subsection \<open>Adding, deleting, toggling\<close>

text \<open>
  \<open>add_task\<close> reads the clock twice: \<open>Date.now()\<close> for the id and
  \<open>new Date().toLocaleString()\<close> for the creation time; both readings are arguments.
\<close>

definition add_task :: "int \<Rightarrow> jsstring \<Rightarrow> Task todo_state \<Rightarrow> Task todo_state" where
  "add_task now localeString st =
     (if trim (newTask st) \<noteq> []
      then let task = \<lparr>task_id = now, task_text = trim (newTask st), task_completed = False,
                       task_createdAt = localeString, task_category = category st,
                       task_priority = priority st\<rparr>
           in st\<lparr>tasks := tasks st @ [task], newTask := []\<rparr>
      else st)"

definition delete_task ::
    "('a SimpleTask_scheme, 'b) store_scheme \<Rightarrow> ('a SimpleTask_scheme, 'b) store_scheme" where
  "delete_task st =
     (case selectedTaskId st of
        Some sel \<Rightarrow> st\<lparr>tasks := filter (\<lambda>task. task_id task \<noteq> sel) (tasks st),
                       selectedTaskId := None\<rparr>
      | None \<Rightarrow> st)"

definition clear_task :: "('t, 'b) store_scheme \<Rightarrow> ('t, 'b) store_scheme" where
  "clear_task st = st\<lparr>tasks := [], selectedTaskId := None\<rparr>"

definition mark_done ::
    "('a SimpleTask_scheme, 'b) store_scheme \<Rightarrow> ('a SimpleTask_scheme, 'b) store_scheme" where
  "mark_done st =
     (case selectedTaskId st of
        Some sel \<Rightarrow>
          st\<lparr>tasks :=
               map (\<lambda>task. if task_id task = sel
                            then task\<lparr>task_completed := \<not> task_completed task\<rparr>
                            else task)
                 (tasks st)\<rparr>
      | None \<Rightarrow> st)"

text \<open>
  One add operation as the user performs it: the text, the category and the priority are
  put into the form (state setters), then \<open>add_task\<close> runs at the clock readings of that
  moment.
\<close>

record add_task_op =
  op_text :: jsstring
  op_category :: Category
  op_priority :: Priority
  op_now :: int
  op_localeString :: jsstring

definition run_add_task :: "add_task_op \<Rightarrow> Task todo_state \<Rightarrow> Task todo_state" where
  "run_add_task a st =
     add_task (op_now a) (op_localeString a)
       (st\<lparr>newTask := op_text a, category := op_category a, priority := op_priority a\<rparr>)"

definition valid_task_op :: "add_task_op \<Rightarrow> bool" where
  "valid_task_op a = (trim (op_text a) \<noteq> [])"


subsection \<open>Export and import\<close>

text \<open>
  The values \<open>JSON.parse\<close> returns. An object is the list of its own properties in
  their order. \<open>JSON.stringify\<close> and \<open>JSON.parse\<close> themselves are parameters of the export
  and the import: \<open>parse\<close> returns the parsed value, or the \<open>SyntaxError\<close> it throws.
\<close>

datatype json =
    JNull
  | JBool bool
  | JNumber number
  | JString jsstring
  | JArray "json list"
  | JObject "(jsstring \<times> json) list"

datatype js_error = SyntaxError | TypeError




text \<open>
  \<open>saveTasksToFile\<close>: the name and the content of the downloaded file. The function
  reads \<open>new Date().toISOString()\<close> twice: \<open>exportDate\<close> is the reading that goes into the
  document, \<open>fileDate\<close> the later one whose part before the first \<open>T\<close> goes into the file
  name. \<open>stringify\<close> stands for \<open>JSON.stringify\<close> with indentation 2.
\<close>

definition dataToSave :: "json list \<Rightarrow> jsstring \<Rightarrow> json" where
  "dataToSave ts exportDate =
     JObject [(js ''tasks'', JArray ts),
              (js ''exportDate'', JString exportDate),
              (js ''version'', JString (js ''1.0''))]"

definition saveTasksToFile ::
    "(json \<Rightarrow> jsstring) \<Rightarrow> jsstring \<Rightarrow> jsstring \<Rightarrow> json todo_state \<Rightarrow> jsstring \<times> jsstring" where
  "saveTasksToFile stringify exportDate fileDate st =
     (js ''todo-tasks-'' @ takeWhile (\<lambda>c. c \<noteq> 0x54) fileDate @ js ''.json'',
      stringify (dataToSave (tasks st) exportDate))"

text \<open>
  Reading the property \<open>tasks\<close> of the parsed value: a \<open>TypeError\<close> on \<open>null\<close>, the own
  property of an object, and \<open>undefined\<close> (here \<open>None\<close>) on everything else.
\<close>

fun get_tasks :: "json \<Rightarrow> js_error + json option" where
  "get_tasks JNull = Inl TypeError"
| "get_tasks (JObject kvs) = Inr (map_of kvs (js ''tasks''))"
| "get_tasks _ = Inr None"

fun truthy :: "json option \<Rightarrow> bool" where
  "truthy None = False"
| "truthy (Some JNull) = False"
| "truthy (Some (JBool b)) = b"
| "truthy (Some (JNumber n)) = truthy_number n"
| "truthy (Some (JString s)) = (s \<noteq> [])"
| "truthy (Some (JArray _)) = True"
| "truthy (Some (JObject _)) = True"

text \<open>
  The call \<open>task.hasOwnProperty(k)\<close>, for a key \<open>k\<close> that is neither \<open>length\<close> nor an
  index. On \<open>null\<close> the property read throws. An object that has an own property named
  \<open>hasOwnProperty\<close> hides the method of \<open>Object.prototype\<close>, and a parsed value is never
  callable: the call throws. A number, a boolean, a string or an array has no own
  property \<open>k\<close>.
\<close>

fun hasOwnProperty :: "json \<Rightarrow> jsstring \<Rightarrow> js_error + bool" where
  "hasOwnProperty JNull k = Inl TypeError"
| "hasOwnProperty (JObject kvs) k =
     (if js ''hasOwnProperty'' \<in> fst ` set kvs then Inl TypeError
      else Inr (k \<in> fst ` set kvs))"
| "hasOwnProperty _ k = Inr False"

text \<open>The chain of \<open>&&\<close> of the callback: the keys are tested in order, up to the first
  that is missing or the first call that throws.\<close>

fun has_all :: "json \<Rightarrow> jsstring list \<Rightarrow> js_error + bool" where
  "has_all task [] = Inr True"
| "has_all task (k # ks) =
     (case hasOwnProperty task k of
        Inl e \<Rightarrow> Inl e
      | Inr False \<Rightarrow> Inr False
      | Inr True \<Rightarrow> has_all task ks)"

definition required_keys :: "jsstring list" where
  "required_keys = [js ''id'', js ''text'', js ''completed'', js ''category'', js ''priority'']"

text \<open>\<open>Array.prototype.every\<close>: stops at the first element whose test is false.\<close>

fun every_task :: "json list \<Rightarrow> js_error + bool" where
  "every_task [] = Inr True"
| "every_task (task # rest) =
     (case has_all task required_keys of
        Inl e \<Rightarrow> Inl e
      | Inr False \<Rightarrow> Inr False
      | Inr True \<Rightarrow> every_task rest)"

text \<open>
  The four alerts of the import: "Tasks imported successfully!", "Invalid file format.
  Please check that the JSON contains valid task data.", "Invalid file format. Expected a
  JSON file with tasks array." and "Error reading file. Please make sure it's a valid
  JSON file."
\<close>

datatype import_alert =
    ImportedSuccessfully
  | InvalidTaskData
  | ExpectedTasksArray
  | ErrorReadingFile

text \<open>
  The body of the \<open>try\<close> block of \<open>reader.onload\<close>: the new state and the alert, or the
  exception thrown. No state is set before the last point that can throw.
\<close>

fun Array_isArray :: "json option \<Rightarrow> bool" where
  "Array_isArray (Some (JArray _)) = True"
| "Array_isArray _ = False"

fun elements :: "json option \<Rightarrow> json list" where
  "elements (Some (JArray ts)) = ts"
| "elements _ = []"

definition import_try ::
    "(jsstring \<Rightarrow> js_error + json) \<Rightarrow> jsstring \<Rightarrow> json todo_state \<Rightarrow>
     js_error + (json todo_state \<times> import_alert)" where
  "import_try parse content st =
     (case parse content of
        Inl e \<Rightarrow> Inl e
      | Inr data \<Rightarrow>
          (case get_tasks data of
             Inl e \<Rightarrow> Inl e
           | Inr field \<Rightarrow>
               if truthy field \<and> Array_isArray field
               then (case every_task (elements field) of
                       Inl e \<Rightarrow> Inl e
                     | Inr isValidFormat \<Rightarrow>
                         if isValidFormat
                         then Inr (st\<lparr>tasks := elements field, selectedTaskId := None\<rparr>,
                                   ImportedSuccessfully)
                         else Inr (st, InvalidTaskData))
               else Inr (st, ExpectedTasksArray)))"

text \<open>
  \<open>handleFileImport\<close>, for the file the user chose (\<open>None\<close>: no file, the handler returns
  at once) once its text has been read: the new state and the alert shown, if any. An
  exception of the \<open>try\<close> block is caught and reported.
\<close>

definition handleFileImport ::
    "(jsstring \<Rightarrow> js_error + json) \<Rightarrow> jsstring option \<Rightarrow> json todo_state \<Rightarrow>
     json todo_state \<times> import_alert option" where
  "handleFileImport parse file st =
     (case file of
        None \<Rightarrow> (st, None)
      | Some content \<Rightarrow>
          (case import_try parse content st of
             Inl e \<Rightarrow> (st, Some ErrorReadingFile)
           | Inr (st', alert) \<Rightarrow> (st', Some alert)))"


text \<open>
  The checks as the specification words them: an element possesses a key when it is an
  object with an own property of that name, and a parsed file is well formed when it is
  an object whose \<open>tasks\<close> property is an array, every element of which possesses the
  five required keys.
\<close>

fun has_key :: "json \<Rightarrow> jsstring \<Rightarrow> bool" where
  "has_key (JObject kvs) k = (k \<in> fst ` set kvs)"
| "has_key _ k = False"

definition well_formed_import :: "json \<Rightarrow> bool" where
  "well_formed_import data =
     (case data of
        JObject kvs \<Rightarrow>
          (case map_of kvs (js ''tasks'') of
             Some (JArray ts) \<Rightarrow> list_all (\<lambda>e. list_all (has_key e) required_keys) ts
           | _ \<Rightarrow> False)
      | _ \<Rightarrow> False)"

section \<open>The wallet page\<close>

subsection \<open>Data\<close>

datatype TransactionType = income | expense

record Transaction =
  tx_id :: int
  tx_amount :: number
  tx_type :: TransactionType
  tx_description :: jsstring
  tx_category :: Category
  tx_createdAt :: jsstring

datatype Tab = transactions_tab | analytics_tab | budget_tab

text \<open>The state variables of the page, in the order of the source.\<close>

record wallet_state =
  transactions :: "Transaction list"
  amount :: jsstring
  description :: jsstring
  selectedTransactionId :: "int option"
  wallet_category :: Category
  transactionType :: TransactionType
  wallet_searchTerm :: jsstring
  wallet_filterCategory :: "Category filter_choice"
  filterType :: "TransactionType filter_choice"
  activeTab :: Tab
  budget :: number
  budgetInput :: jsstring

definition wallet_init :: wallet_state where
  "wallet_init =
     \<lparr>transactions = [], amount = [], description = [], selectedTransactionId = None,
      wallet_category = Personal, transactionType = expense, wallet_searchTerm = [],
      wallet_filterCategory = All, filterType = All, activeTab = transactions_tab,
      budget = Fin 0, budgetInput = []\<rparr>"

subsection \<open>Filtering, balance and analytics\<close>

definition transaction_matches ::
    "(jsstring \<Rightarrow> jsstring) \<Rightarrow> jsstring \<Rightarrow> Category filter_choice \<Rightarrow>
     TransactionType filter_choice \<Rightarrow> Transaction \<Rightarrow> bool" where
  "transaction_matches toLowerCase search fc ft transaction =
     (let matchesSearch =
            includes_str (toLowerCase (tx_description transaction)) (toLowerCase search);
          matchesCategory = matches_filter fc (tx_category transaction);
          matchesType = matches_filter ft (tx_type transaction)
      in matchesSearch \<and> matchesCategory \<and> matchesType)"

definition filter_transactions ::
    "(jsstring \<Rightarrow> jsstring) \<Rightarrow> jsstring \<Rightarrow> Category filter_choice \<Rightarrow>
     TransactionType filter_choice \<Rightarrow> Transaction list \<Rightarrow> Transaction list" where
  "filter_transactions toLowerCase search fc ft ts =
     filter (transaction_matches toLowerCase search fc ft) ts"

definition getFilteredTransactions ::
    "(jsstring \<Rightarrow> jsstring) \<Rightarrow> wallet_state \<Rightarrow> Transaction list" where
  "getFilteredTransactions toLowerCase st =
     filter_transactions toLowerCase (wallet_searchTerm st) (wallet_filterCategory st)
       (filterType st) (transactions st)"

text \<open>\<open>Array.prototype.reduce\<close> with an initial value is a left fold.\<close>

definition getCurrentBalance :: "wallet_state \<Rightarrow> number" where
  "getCurrentBalance st =
     foldl (\<lambda>balance transaction.
              if tx_type transaction = income
              then num_add balance (tx_amount transaction)
              else num_sub balance (tx_amount transaction))
       (Fin 0) (transactions st)"

record analytics =
  totalIncome :: number
  totalExpenses :: number
  netSavings :: number
  totalTransactions :: nat
  avgMonthlyExpense :: number
  largestExpense :: number

definition getAnalyticsData :: "wallet_state \<Rightarrow> analytics" where
  "getAnalyticsData st =
     (let totalIncome =
            foldl (\<lambda>sum t. num_add sum (tx_amount t)) (Fin 0)
              (filter (\<lambda>t. tx_type t = income) (transactions st));
          totalExpenses =
            foldl (\<lambda>sum t. num_add sum (tx_amount t)) (Fin 0)
              (filter (\<lambda>t. tx_type t = expense) (transactions st));
          netSavings = num_sub totalIncome totalExpenses;
          totalTransactions = length (transactions st);
          avgMonthlyExpense = totalExpenses;
          expenseTransactions = filter (\<lambda>t. tx_type t = expense) (transactions st);
          largestExpense =
            (if 0 < length expenseTransactions
             then Math_max (map tx_amount expenseTransactions)
             else Fin 0)
      in \<lparr>totalIncome = totalIncome, totalExpenses = totalExpenses, netSavings = netSavings,
          totalTransactions = totalTransactions, avgMonthlyExpense = avgMonthlyExpense,
          largestExpense = largestExpense\<rparr>)"

definition getCategoryColor :: "Category \<Rightarrow> jsstring" where
  "getCategoryColor c =
     (case c of Work \<Rightarrow> js ''#3B82F6'' | Personal \<Rightarrow> js ''#10B981'' | Shopping \<Rightarrow> js ''#F59E0B''
      | Others \<Rightarrow> js ''#8B5CF6'' | Home \<Rightarrow> js ''#EF4444'')"

text \<open>
  The accumulator object of \<open>getCategoryDistribution\<close> is the list of its properties in
  insertion order, which is the order of \<open>Object.entries\<close>. \<open>acc[category] || 0\<close> is \<open>0\<close>
  when the property is missing, a zero or NaN.
\<close>

definition add_to_category ::
    "(Category \<times> number) list \<Rightarrow> Transaction \<Rightarrow> (Category \<times> number) list" where
  "add_to_category acc transaction =
     (let category = tx_category transaction;
          current = (case map_of acc category of
                       None \<Rightarrow> Fin 0
                     | Some v \<Rightarrow> if truthy_number v then v else Fin 0)
      in AList.update category (num_add current (tx_amount transaction)) acc)"

definition expensesByCategory :: "wallet_state \<Rightarrow> (Category \<times> number) list" where
  "expensesByCategory st =
     foldl add_to_category [] (filter (\<lambda>t. tx_type t = expense) (transactions st))"

record slice =
  slice_name :: Category
  slice_value :: number
  slice_color :: jsstring

definition getCategoryDistribution :: "wallet_state \<Rightarrow> slice list" where
  "getCategoryDistribution st =
     map (\<lambda>(category, amount).
            \<lparr>slice_name = category, slice_value = amount, slice_color = getCategoryColor category\<rparr>)
       (expensesByCategory st)"

subsection \<open>Budget\<close>

text \<open>\<open>parseFloat\<close> is a parameter of the two functions that read a number from a form.\<close>

definition setBudgetAmount :: "(jsstring \<Rightarrow> number) \<Rightarrow> wallet_state \<Rightarrow> wallet_state" where
  "setBudgetAmount parseFloat st =
     (let numBudget = parseFloat (budgetInput st)
      in if \<not> isNaN numBudget \<and> num_greater numBudget (Fin 0)
         then st\<lparr>budget := numBudget, budgetInput := []\<rparr>
         else st)"

record budget_data =
  bd_budget :: number
  spent :: number
  remaining :: number
  percentageSpent :: number

definition getBudgetData :: "wallet_state \<Rightarrow> budget_data" where
  "getBudgetData st =
     (let totalSpent =
            foldl (\<lambda>sum t. num_add sum (tx_amount t)) (Fin 0)
              (filter (\<lambda>t. tx_type t = expense) (transactions st));
          remaining = num_sub (budget st) totalSpent;
          percentageSpent =
            (if num_greater (budget st) (Fin 0)
             then num_mul (num_div totalSpent (budget st)) (Fin 100)
             else Fin 0)
      in \<lparr>bd_budget = budget st, spent = totalSpent, remaining = max2 (Fin 0) remaining,
          percentageSpent = min2 (Fin 100) percentageSpent\<rparr>)"

text \<open>
  The budget notice section of the page, shown when \<open>budget > 0\<close>: its colour band and
  the number its sentence prints (with \<open>toFixed(1)\<close>): "You have exceeded your budget by
  ...%!" or "You have spent ...% of your budget".
\<close>

datatype band = band_green | band_yellow | band_orange | band_red

datatype notice = ExceededBy number | SpentPercent number

definition budgetNotice :: "wallet_state \<Rightarrow> (band \<times> notice) option" where
  "budgetNotice st =
     (if num_greater (budget st) (Fin 0)
      then Some
        (if num_le (percentageSpent (getBudgetData st)) (Fin 50) then band_green
         else if num_le (percentageSpent (getBudgetData st)) (Fin 80) then band_yellow
         else if num_less (percentageSpent (getBudgetData st)) (Fin 100) then band_orange
         else band_red,
         if num_ge (percentageSpent (getBudgetData st)) (Fin 100)
         then ExceededBy (num_sub (percentageSpent (getBudgetData st)) (Fin 100))
         else SpentPercent (percentageSpent (getBudgetData st)))
      else None)"

subsection \<open>Adding and deleting\<close>

definition addTransaction ::
    "(jsstring \<Rightarrow> number) \<Rightarrow> int \<Rightarrow> jsstring \<Rightarrow> wallet_state \<Rightarrow> wallet_state" where
  "addTransaction parseFloat now localeString st =
     (let numAmount = parseFloat (amount st)
      in if trim (amount st) \<noteq> [] \<and> \<not> isNaN numAmount \<and> num_greater numAmount (Fin 0)
            \<and> trim (description st) \<noteq> []
         then let transaction =
                    \<lparr>tx_id = now, tx_amount = numAmount, tx_type = transactionType st,
                     tx_description = trim (description st), tx_category = wallet_category st,
                     tx_createdAt = localeString\<rparr>
              in st\<lparr>transactions := transactions st @ [transaction],
                    amount := [], description := []\<rparr>
         else st)"

definition deleteTransaction :: "wallet_state \<Rightarrow> wallet_state" where
  "deleteTransaction st =
     (case selectedTransactionId st of
        Some sel \<Rightarrow>
          st\<lparr>transactions := filter (\<lambda>transaction. tx_id transaction \<noteq> sel) (transactions st),
              selectedTransactionId := None\<rparr>
      | None \<Rightarrow> st)"

definition clearAllTransactions :: "wallet_state \<Rightarrow> wallet_state" where
  "clearAllTransactions st = st\<lparr>transactions := [], selectedTransactionId := None\<rparr>"

text \<open>One add operation as the user performs it: the form is filled, then
  \<open>addTransaction\<close> runs at the clock readings of that moment.\<close>

record add_transaction_op =
  top_amount :: jsstring
  top_description :: jsstring
  top_type :: TransactionType
  top_category :: Category
  top_now :: int
  top_localeString :: jsstring

definition run_add_transaction ::
    "(jsstring \<Rightarrow> number) \<Rightarrow> add_transaction_op \<Rightarrow> wallet_state \<Rightarrow> wallet_state" where
  "run_add_transaction parseFloat a st =
     addTransaction parseFloat (top_now a) (top_localeString a)
       (st\<lparr>amount := top_amount a, description := top_description a,
           transactionType := top_type a, wallet_category := top_category a\<rparr>)"

definition valid_transaction_op :: "(jsstring \<Rightarrow> number) \<Rightarrow> add_transaction_op \<Rightarrow> bool" where
  "valid_transaction_op parseFloat a =
     (trim (top_amount a) \<noteq> [] \<and> \<not> isNaN (parseFloat (top_amount a))
      \<and> num_greater (parseFloat (top_amount a)) (Fin 0) \<and> trim (top_description a) \<noteq> [])"

subsection \<open>Notions of the specification\<close>

text \<open>
  The sum of the amounts of a list of transactions, taken from left to right in the
  arithmetic of JavaScript numbers.
\<close>

definition sum_amounts :: "Transaction list \<Rightarrow> number" where
  "sum_amounts ts = foldl num_add (Fin 0) (map tx_amount ts)"

text \<open>
  The invariant of the data model: every amount is a number greater than 0 (the check of
  \<open>addTransaction\<close>, the only place that creates a transaction).
\<close>

definition positive_amounts :: "wallet_state \<Rightarrow> bool" where
  "positive_amounts st = list_all (\<lambda>t. num_greater (tx_amount t) (Fin 0)) (transactions st)"

fun nonneg_num :: "number \<Rightarrow> bool" where
  "nonneg_num (Fin x) = (0 \<le> x)"
| "nonneg_num PInf = True"
| "nonneg_num _ = False"

text \<open>
  Whole amounts: positive integers. \<open>exact_total\<close> is the sum of the amounts as rational
  numbers, without rounding, and \<open>units\<close> the integer a whole amount is.
\<close>

definition whole_amount :: "number \<Rightarrow> bool" where
  "whole_amount a = (case a of Fin x \<Rightarrow> 0 < x \<and> of_int \<lfloor>x\<rfloor> = x | _ \<Rightarrow> False)"

definition exact_value :: "number \<Rightarrow> rat" where
  "exact_value a = (case a of Fin x \<Rightarrow> x | _ \<Rightarrow> 0)"

definition exact_total :: "Transaction list \<Rightarrow> rat" where
  "exact_total ts = sum_list (map (\<lambda>t. exact_value (tx_amount t)) ts)"

definition whole_amounts :: "wallet_state \<Rightarrow> bool" where
  "whole_amounts st = list_all (\<lambda>t. whole_amount (tx_amount t)) (transactions st)"

definition units :: "Transaction \<Rightarrow> int" where
  "units t = \<lfloor>exact_value (tx_amount t)\<rfloor>"
section \<open>Example inputs\<close>

text \<open>
  A wallet with budget 100 and one expense of 120.
\<close>

definition wallet_100_120 :: wallet_state where
  "wallet_100_120 =
     wallet_init\<lparr>budget := Fin 100,
       transactions :=
         [\<lparr>tx_id = 1, tx_amount = Fin 120, tx_type = expense, tx_description = js ''rent'',
           tx_category = Home, tx_createdAt = []\<rparr>]\<rparr>"

text \<open>
  Two add operations of the todo page at different clock readings, and a third at the
  reading of the first.
\<close>

definition buy_milk :: add_task_op where
  "buy_milk = \<lparr>op_text = js ''Buy milk'', op_category = Shopping, op_priority = High,
                op_now = 1700000000000, op_localeString = js ''11/14/2023, 10:13:20 PM''\<rparr>"

definition pay_rent :: add_task_op where
  "pay_rent = \<lparr>op_text = js ''Pay rent'', op_category = Home, op_priority = Critical,
                op_now = 1700000000001, op_localeString = js ''11/14/2023, 10:13:20 PM''\<rparr>"

definition call_mum :: add_task_op where
  "call_mum = \<lparr>op_text = js ''Call mum'', op_category = Personal, op_priority = Low,
                op_now = 1700000000000, op_localeString = js ''11/14/2023, 10:13:20 PM''\<rparr>"

text \<open>
  The state after \<open>buy_milk\<close> and \<open>call_mum\<close>, added at the same clock reading, with that
  reading selected (a click on either of the two tasks).
\<close>

definition same_clock_state :: "Task todo_state" where
  "same_clock_state = fold run_add_task [buy_milk, call_mum] todo_init"

definition same_clock_selected :: "Task todo_state" where
  "same_clock_selected = same_clock_state\<lparr>selectedTaskId := Some 1700000000000\<rparr>"

text \<open>The state after \<open>buy_milk\<close> and \<open>pay_rent\<close>, with the first task selected.\<close>

definition two_tasks_state :: "Task todo_state" where
  "two_tasks_state = fold run_add_task [buy_milk, pay_rent] todo_init"

definition two_tasks_selected :: "Task todo_state" where
  "two_tasks_selected = two_tasks_state\<lparr>selectedTaskId := Some 1700000000000\<rparr>"

text \<open>Two add operations of the wallet page, and a reader of the two amounts typed.\<close>

definition salary :: add_transaction_op where
  "salary = \<lparr>top_amount = js ''1000'', top_description = js ''salary'', top_type = income,
              top_category = Work, top_now = 1700000000000,
              top_localeString = js ''11/14/2023, 10:13:20 PM''\<rparr>"

definition shoes :: add_transaction_op where
  "shoes = \<lparr>top_amount = js ''200'', top_description = js ''shoes'', top_type = expense,
             top_category = Shopping, top_now = 1700000000001,
             top_localeString = js ''11/14/2023, 10:13:21 PM''\<rparr>"

definition read_amount :: "jsstring \<Rightarrow> number" where
  "read_amount s =
     (if s = js ''1000'' then Fin 1000 else if s = js ''200'' then Fin 200 else NaN)"

definition wallet_selected :: wallet_state where
  "wallet_selected = wallet_100_120\<lparr>selectedTransactionId := Some 1\<rparr>"


text \<open>
  A parsed file whose one task has the five required keys and, besides, a key named
  \<open>hasOwnProperty\<close>: the text
  \<open>{"tasks":[{"id":1,"text":"a","completed":false,"category":"Work","priority":"Low","hasOwnProperty":0}]}\<close>.
\<close>

definition shadowing_document :: json where
  "shadowing_document =
     JObject [(js ''tasks'',
       JArray [JObject [(js ''id'', JNumber (Fin 1)),
                        (js ''text'', JString (js ''a'')),
                        (js ''completed'', JBool False),
                        (js ''category'', JString (js ''Work'')),
                        (js ''priority'', JString (js ''Low'')),
                        (js ''hasOwnProperty'', JNumber (Fin 0))]])]"








text \<open>The wallet of the specification's example: income 1000, expenses 200 and 50.\<close>

definition analytics_example :: wallet_state where
  "analytics_example =
     wallet_init\<lparr>transactions :=
       [\<lparr>tx_id = 1, tx_amount = Fin 1000, tx_type = income, tx_description = js ''salary'',
         tx_category = Work, tx_createdAt = []\<rparr>,
        \<lparr>tx_id = 2, tx_amount = Fin 200, tx_type = expense, tx_description = js ''shoes'',
         tx_category = Shopping, tx_createdAt = []\<rparr>,
        \<lparr>tx_id = 3, tx_amount = Fin 50, tx_type = expense, tx_description = js ''train'',
         tx_category = Work, tx_createdAt = []\<rparr>]\<rparr>"

text \<open>
  The numbers \<open>0.1\<close>, \<open>0.2\<close> and \<open>0.3\<close> (what \<open>parseFloat\<close> returns for these texts), and a
  wallet with an income of 0.1, an expense of 0.3 and an income of 0.2.
\<close>

definition tenth :: number where
  "tenth = Fin (3602879701896397 / 36028797018963968)"

definition fifth :: number where
  "fifth = Fin (3602879701896397 / 18014398509481984)"

definition three_tenths :: number where
  "three_tenths = Fin (5404319552844595 / 18014398509481984)"

definition rounding_example :: wallet_state where
  "rounding_example =
     wallet_init\<lparr>transactions :=
       [\<lparr>tx_id = 1, tx_amount = tenth, tx_type = income, tx_description = js ''refund'',
         tx_category = Others, tx_createdAt = []\<rparr>,
        \<lparr>tx_id = 2, tx_amount = three_tenths, tx_type = expense, tx_description = js ''stamp'',
         tx_category = Others, tx_createdAt = []\<rparr>,
        \<lparr>tx_id = 3, tx_amount = fifth, tx_type = income, tx_description = js ''refund'',
         tx_category = Others, tx_createdAt = []\<rparr>]\<rparr>"

section \<open>Properties of the number model\<close>

subsection \<open>Powers of two and the binary logarithm\<close>

lemma pow2_powi: "pow2 k = 2 powi k"
  by (simp add: pow2_def power_int_def inverse_eq_divide power_one_over)

lemma pow2_pos [simp]: "0 < pow2 k"
  by (simp add: pow2_powi)

lemma pow2_add: "pow2 (a + b) = pow2 a * pow2 b"
  by (simp add: pow2_powi power_int_add)

lemma pow2_mono: "a \<le> b \<Longrightarrow> pow2 a \<le> pow2 b"
  by (simp add: pow2_powi power_int_increasing)

lemma pow2_strict_mono: "a < b \<Longrightarrow> pow2 a < pow2 b"
  by (simp add: pow2_powi power_int_strict_increasing)

lemma pow2_nat: "0 \<le> k \<Longrightarrow> pow2 k = of_int (2 ^ nat k)"
  by (simp add: pow2_def)

lemma int_pow_le_rat: "(2::int) ^ k \<le> n \<Longrightarrow> (2::rat) ^ k \<le> of_int n"
  by simp

lemma int_less_pow_rat: "n < (2::int) ^ k \<Longrightarrow> of_int n < (2::rat) ^ k"
  by simp

lemma int_le_pow_rat: "n \<le> (2::int) ^ k \<Longrightarrow> of_int n \<le> (2::rat) ^ k"
  by simp

lemma bitlen_pos: "0 < n \<Longrightarrow> 0 < bitlen n"
  using bitlen_eq_zero_iff[of n] bitlen_nonneg[of n] by linarith

lemma ilog2_ge1_bounds:
  assumes "1 \<le> a"
  shows "pow2 (ilog2 a) \<le> a" and "a < pow2 (ilog2 a + 1)"
proof -
  let ?n = "\<lfloor>a\<rfloor>"
  have n: "0 < ?n" using assms by linarith
  have e: "ilog2 a = bitlen ?n - 1" using assms by (simp add: ilog2_def)
  have b: "0 < bitlen ?n" by (rule bitlen_pos[OF n])
  have "(2::rat) ^ nat (bitlen ?n - 1) \<le> of_int ?n"
    using bitlen_bounds[OF n] by (intro int_pow_le_rat) simp
  also have "of_int ?n \<le> a" by simp
  finally show "pow2 (ilog2 a) \<le> a" using b by (simp add: e pow2_def)
  have "?n + 1 \<le> 2 ^ nat (bitlen ?n)" using bitlen_bounds[OF n] by simp
  then have "of_int (?n + 1) \<le> (2::rat) ^ nat (bitlen ?n)" by (rule int_le_pow_rat)
  moreover have "a < of_int (?n + 1)" by linarith
  ultimately have "a < 2 ^ nat (bitlen ?n)" by linarith
  then show "a < pow2 (ilog2 a + 1)" using b by (simp add: e pow2_def)
qed

lemma ilog2_lt1_bounds:
  assumes "0 < a" and "a < 1"
  shows "pow2 (ilog2 a) \<le> a" and "a < pow2 (ilog2 a + 1)"
proof -
  let ?n = "\<lceil>1 / a\<rceil>"
  let ?b = "bitlen (?n - 1)"
  have y: "1 < 1 / a" using assms by simp
  have n: "0 < ?n - 1" using y by linarith
  have e: "ilog2 a = - ?b" using assms by (simp add: ilog2_def)
  have b: "0 < ?b" by (rule bitlen_pos[OF n])
  have "?n \<le> 2 ^ nat ?b" using bitlen_bounds[OF n] by linarith
  then have "of_int ?n \<le> (2::rat) ^ nat ?b" by (rule int_le_pow_rat)
  moreover have "1 / a \<le> of_int ?n" by (rule le_of_int_ceiling)
  ultimately have "1 / a \<le> 2 ^ nat ?b" by linarith
  then have "1 / 2 ^ nat ?b \<le> a" using assms(1) by (simp add: field_simps)
  then show "pow2 (ilog2 a) \<le> a" using b by (simp add: e pow2_def)
  have "(2::rat) ^ nat (?b - 1) \<le> of_int (?n - 1)"
    using bitlen_bounds[OF n] by (intro int_pow_le_rat) simp
  moreover have "of_int (?n - 1) < 1 / a" by linarith
  ultimately have "2 ^ nat (?b - 1) < 1 / a" by linarith
  then have "a < 1 / 2 ^ nat (?b - 1)" using assms(1) by (simp add: field_simps)
  moreover have "pow2 (- ?b + 1) = 1 / 2 ^ nat (?b - 1)"
  proof (cases "?b = 1")
    case True then show ?thesis by (simp add: pow2_def)
  next
    case False
    then have "- ?b + 1 < 0" using b by linarith
    moreover have "nat (- (- ?b + 1)) = nat (?b - 1)" by simp
    ultimately show ?thesis by (simp add: pow2_def)
  qed
  ultimately show "a < pow2 (ilog2 a + 1)" by (simp add: e)
qed

lemma ilog2_bounds:
  assumes "0 < a"
  shows "pow2 (ilog2 a) \<le> a" and "a < pow2 (ilog2 a + 1)"
  using assms ilog2_ge1_bounds[of a] ilog2_lt1_bounds[of a] by (cases "1 \<le> a"; simp)+

lemma ilog2_unique:
  assumes "pow2 e \<le> a" and "a < pow2 (e + 1)"
  shows "ilog2 a = e"
proof -
  have pos: "0 < a" using assms(1) pow2_pos[of e] by linarith
  note b = ilog2_bounds[OF pos]
  have "\<not> ilog2 a < e"
  proof
    assume "ilog2 a < e"
    then have "pow2 (ilog2 a + 1) \<le> pow2 e" by (intro pow2_mono) simp
    with b(2) assms(1) show False by linarith
  qed
  moreover have "\<not> e < ilog2 a"
  proof
    assume "e < ilog2 a"
    then have "pow2 (e + 1) \<le> pow2 (ilog2 a)" by (intro pow2_mono) simp
    with b(1) assms(2) show False by linarith
  qed
  ultimately show ?thesis by linarith
qed


subsection \<open>Rounding\<close>

lemma round_half_even_of_int [simp]: "round_half_even (of_int k) = k"
  by (simp add: round_half_even_def)

lemma round_half_even_le_ceiling: "round_half_even x \<le> \<lceil>x\<rceil>"
proof -
  have "\<lfloor>x\<rfloor> + 1 \<le> \<lceil>x\<rceil>" if "x \<noteq> of_int \<lfloor>x\<rfloor>"
    using that by (metis ceiling_altdef order_refl)
  moreover have "\<lfloor>x\<rfloor> \<le> \<lceil>x\<rceil>" by (rule floor_le_ceiling)
  ultimately show ?thesis
    by (auto simp add: round_half_even_def Let_def)
qed

lemma round_half_even_nonneg: "0 \<le> x \<Longrightarrow> 0 \<le> round_half_even x"
  by (auto simp add: round_half_even_def Let_def)

lemma round64_pos_eval:
  assumes "pow2 (q + 52) \<le> x" and "x < pow2 (q + 53)" and "- 1074 \<le> q" and "q \<le> 970"
  shows "round64 x = Fin (of_int (round_half_even (x / pow2 q)) * pow2 q)"
proof -
  have pos: "0 < x" using assms(1) pow2_pos[of "q + 52"] by linarith
  have e: "ilog2 x = q + 52"
    using assms(1,2) by (intro ilog2_unique) (simp_all add: add.commute add.left_commute)
  have q: "max (ilog2 \<bar>x\<bar> - 52) (- 1074) = q" using pos e assms(3) by simp
  have "x / pow2 q < pow2 53"
    using assms(2) pow2_add[of 53 q] by (simp add: field_simps add.commute)
  then have "x / pow2 q \<le> of_int (2 ^ 53)" by (simp add: pow2_def)
  then have "\<lceil>x / pow2 q\<rceil> \<le> 2 ^ 53" by (simp only: ceiling_le_iff)
  then have "round_half_even (x / pow2 q) \<le> 2 ^ 53"
    using round_half_even_le_ceiling[of "x / pow2 q"] by linarith
  then have "(of_int (round_half_even (x / pow2 q)) :: rat) \<le> of_int (2 ^ 53)"
    by (simp only: of_int_le_iff)
  then have "of_int (round_half_even (x / pow2 q)) * pow2 q \<le> pow2 53 * pow2 q"
    by (intro mult_right_mono) (simp_all add: pow2_def)
  also have "\<dots> = pow2 (53 + q)" by (simp add: pow2_add)
  also have "\<dots> < pow2 1024" using assms(4) by (intro pow2_strict_mono) simp
  finally have "\<not> pow2 1024 \<le> of_int (round_half_even (x / pow2 q)) * pow2 q" by simp
  then show ?thesis using pos q by (simp add: round64_def Let_def)
qed

lemma round64_minus_Fin: "round64 x = Fin y \<Longrightarrow> round64 (- x) = Fin (- y)"
  by (auto simp add: round64_def Let_def split: if_splits)

lemma round64_pos_int:
  assumes "0 < n" and "n \<le> 2 ^ 53"
  shows "round64 (of_int n) = Fin (of_int n)"
proof -
  let ?x = "of_int n :: rat"
  let ?e = "ilog2 ?x"
  have pos: "0 < ?x" using assms(1) by simp
  have ax: "\<bar>?x\<bar> = ?x" using pos by simp
  note b = ilog2_bounds[OF pos]
  have e0: "0 \<le> ?e"
  proof (rule ccontr)
    assume "\<not> 0 \<le> ?e"
    then have "pow2 (?e + 1) \<le> pow2 0" by (intro pow2_mono) simp
    moreover have "1 \<le> ?x" using assms(1) by simp
    ultimately show False using b(2) by (simp add: pow2_def)
  qed
  have x53: "?x \<le> pow2 53" using assms(2) by (simp add: pow2_def)
  have e53: "?e \<le> 53"
  proof (rule ccontr)
    assume "\<not> ?e \<le> 53"
    then have "pow2 54 \<le> pow2 ?e" by (intro pow2_mono) simp
    moreover have "pow2 53 < pow2 54" by (intro pow2_strict_mono) simp
    ultimately show False using b(1) x53 by linarith
  qed
  have small: "\<not> pow2 1024 \<le> ?x"
  proof -
    have "pow2 53 < pow2 1024" by (intro pow2_strict_mono) simp
    then show ?thesis using x53 by linarith
  qed
  show ?thesis
  proof (cases "?e \<le> 52")
    case True
    let ?q = "?e - 52"
    have q: "max (ilog2 ?x - 52) (- 1074) = ?q" using e0 by simp
    have pq: "pow2 ?q = 1 / 2 ^ nat (52 - ?e)"
    proof (cases "?e = 52")
      case True then show ?thesis by (simp add: pow2_def)
    next
      case False
      then have "?q < 0" using True by linarith
      moreover have "nat (- ?q) = nat (52 - ?e)" by simp
      ultimately show ?thesis by (simp add: pow2_def)
    qed
    have d: "?x / pow2 ?q = of_int (n * 2 ^ nat (52 - ?e))" by (simp add: pq)
    have y: "of_int (round_half_even (?x / pow2 ?q)) * pow2 ?q = ?x"
      by (simp only: d round_half_even_of_int) (simp add: pq)
    show ?thesis using pos small
      by (simp only: round64_def Let_def q ax y) simp
  next
    case False
    then have e: "?e = 53" using e53 by linarith
    have x: "?x = pow2 53" using b(1) x53 e by simp
    have q: "max (ilog2 ?x - 52) (- 1074) = 1" using e by simp
    have d: "?x / pow2 1 = of_int (2 ^ 52)" by (simp add: x pow2_def)
    have y: "of_int (round_half_even (?x / pow2 1)) * pow2 1 = ?x"
      by (simp only: d round_half_even_of_int) (simp add: x pow2_def)
    show ?thesis using pos small
      by (simp only: round64_def Let_def q ax y) simp
  qed
qed

lemma round64_int:
  assumes "\<bar>n\<bar> \<le> 2 ^ 53"
  shows "round64 (of_int n) = Fin (of_int n)"
proof -
  consider "n = 0" | "0 < n" | "n < 0" by linarith
  then show ?thesis
  proof cases
    case 1 then show ?thesis by (simp add: round64_def)
  next
    case 2 then show ?thesis using assms by (intro round64_pos_int) simp_all
  next
    case 3
    then have "round64 (of_int (- n)) = Fin (of_int (- n))"
      using assms by (intro round64_pos_int) simp_all
    from round64_minus_Fin[OF this] show ?thesis by simp
  qed
qed



lemma floor_numeral_div: "\<lfloor>(numeral a :: rat) / numeral b\<rfloor> = numeral a div numeral b"
  using floor_divide_of_int_eq[of "numeral a" "numeral b", where ?'a = rat] by simp



lemma round64_numeral:
  "(numeral k :: int) \<le> 2 ^ 53 \<Longrightarrow> round64 (numeral k) = Fin (numeral k)"
  using round64_int[of "numeral k"] by simp

lemma round64_neg_numeral:
  "(numeral k :: int) \<le> 2 ^ 53 \<Longrightarrow> round64 (- numeral k) = Fin (- numeral k)"
  using round64_int[of "- numeral k"] by simp

lemma round64_normal:
  assumes "pow2 (q + 52) \<le> x" and "x < pow2 (q + 53)" and "- 1074 \<le> q"
  shows "round64 x =
           (if pow2 1024 \<le> of_int (round_half_even (x / pow2 q)) * pow2 q then PInf
            else Fin (of_int (round_half_even (x / pow2 q)) * pow2 q))"
proof -
  have pos: "0 < x" using assms(1) pow2_pos[of "q + 52"] by linarith
  have e: "ilog2 x = q + 52"
    using assms(1,2) by (intro ilog2_unique) (simp_all add: add.commute add.left_commute)
  have q: "max (ilog2 \<bar>x\<bar> - 52) (- 1074) = q" using pos e assms(3) by simp
  show ?thesis using pos q by (simp add: round64_def Let_def)
qed

lemma round64_subnormal:
  assumes "0 < x" and "x < pow2 (- 1022)"
  shows "round64 x = Fin (of_int (round_half_even (x / pow2 (- 1074))) * pow2 (- 1074))"
proof -
  have "ilog2 x < - 1022"
  proof (rule ccontr)
    assume "\<not> ilog2 x < - 1022"
    then have "pow2 (- 1022) \<le> pow2 (ilog2 x)" by (intro pow2_mono) simp
    with ilog2_bounds(1)[OF assms(1)] assms(2) show False by linarith
  qed
  then have q: "max (ilog2 \<bar>x\<bar> - 52) (- 1074) = - 1074" using assms(1) by simp
  have "x / pow2 (- 1074) < pow2 52"
    using assms(2) pow2_add[of 52 "- 1074"] by (simp add: field_simps)
  then have "x / pow2 (- 1074) \<le> of_int (2 ^ 52)" by (simp add: pow2_def)
  then have "\<lceil>x / pow2 (- 1074)\<rceil> \<le> 2 ^ 52" by (simp only: ceiling_le_iff)
  then have "round_half_even (x / pow2 (- 1074)) \<le> 2 ^ 52"
    using round_half_even_le_ceiling[of "x / pow2 (- 1074)"] by linarith
  then have "(of_int (round_half_even (x / pow2 (- 1074))) :: rat) \<le> of_int (2 ^ 52)"
    by (simp only: of_int_le_iff)
  then have "of_int (round_half_even (x / pow2 (- 1074))) * pow2 (- 1074) \<le> pow2 52 * pow2 (- 1074)"
    by (intro mult_right_mono) (simp_all add: pow2_def)
  also have "\<dots> = pow2 (52 + - 1074)" by (simp only: pow2_add)
  also have "\<dots> < pow2 1024" by (intro pow2_strict_mono) simp
  finally have "\<not> pow2 1024 \<le> of_int (round_half_even (x / pow2 (- 1074))) * pow2 (- 1074)" by simp
  then show ?thesis using assms(1) q by (simp add: round64_def Let_def)
qed


lemmas round_eval = pow2_def round_half_even_def Let_def floor_numeral_div

subsection \<open>The ends of the range\<close>

text \<open>
  The largest finite value \<open>2 ^ 1024 - 2 ^ 971\<close> and the first tie that rounds to
  infinity; the smallest positive value \<open>2 ^ -1074\<close> and the tie below it, which rounds
  to zero.
\<close>

lemma floor_one_div_numeral: "\<lfloor>(1 :: rat) / numeral b\<rfloor> = 1 div numeral b"
  using floor_divide_of_int_eq[of 1 "numeral b", where ?'a = rat] by simp

lemma largest_double: "round64 (2 ^ 1024 - 2 ^ 971) = Fin (2 ^ 1024 - 2 ^ 971)"
  using round64_normal[of 971 "2 ^ 1024 - 2 ^ 971"] by (simp add: round_eval)

lemma overflow_tie: "round64 (2 ^ 1024 - 2 ^ 970) = PInf"
  using round64_normal[of 971 "2 ^ 1024 - 2 ^ 970"] by (simp add: round_eval)

lemma below_overflow_tie: "round64 (2 ^ 1024 - 2 ^ 970 - 1) = Fin (2 ^ 1024 - 2 ^ 971)"
  using round64_normal[of 971 "2 ^ 1024 - 2 ^ 970 - 1"] by (simp add: round_eval)

lemma smallest_double: "round64 (1 / 2 ^ 1074) = Fin (1 / 2 ^ 1074)"
  using round64_subnormal[of "1 / 2 ^ 1074"] by (simp add: round_eval)

lemma underflow_tie: "round64 (1 / 2 ^ 1075) = Fin 0"
  using round64_subnormal[of "1 / 2 ^ 1075"] by (simp add: round_eval floor_one_div_numeral)

lemma above_underflow_tie: "round64 (3 / 2 ^ 1076) = Fin (1 / 2 ^ 1074)"
  using round64_subnormal[of "3 / 2 ^ 1076"] by (simp add: round_eval)

section \<open>Properties of strings\<close>

lemma js_Nil [simp]: "js [] = []"
  by (simp add: js_def)

lemma js_eq_Nil [simp]: "js s = [] \<longleftrightarrow> s = []"
  by (simp add: js_def)

lemma trim_buy_milk: "trim (js ''Buy milk'') = js ''Buy milk''"
  by (simp add: trim_def js_def is_trim_space_def)

lemma trim_pay_rent: "trim (js ''Pay rent'') = js ''Pay rent''"
  by (simp add: trim_def js_def is_trim_space_def)

lemma trim_call_mum: "trim (js ''Call mum'') = js ''Call mum''"
  by (simp add: trim_def js_def is_trim_space_def)

lemma valid_buy_milk: "valid_task_op buy_milk"
  by (simp add: valid_task_op_def buy_milk_def trim_buy_milk)

lemma valid_pay_rent: "valid_task_op pay_rent"
  by (simp add: valid_task_op_def pay_rent_def trim_pay_rent)

lemma valid_call_mum: "valid_task_op call_mum"
  by (simp add: valid_task_op_def call_mum_def trim_call_mum)


section \<open>The budget view\<close>

lemma round64_six_fifths: "round64 (6 / 5) = Fin (5404319552844595 / 4503599627370496)"
  using round64_pos_eval[of "-52" "6/5"] by (simp add: round_eval)

lemma round64_six_fifths_times_100:
  "round64 (135107988821114875 / 1125899906842624) = Fin 120"
  using round64_pos_eval[of "-46" "135107988821114875 / 1125899906842624"]
  by (simp add: round_eval)

lemma budget_data_100_120:
  "getBudgetData wallet_100_120 =
     \<lparr>bd_budget = Fin 100, spent = Fin 120, remaining = Fin 0, percentageSpent = Fin 100\<rparr>"
  by (simp add: getBudgetData_def wallet_100_120_def wallet_init_def Let_def num_sub_def
      num_greater_def max2_def min2_def isNaN_def round64_numeral round64_neg_numeral
      round64_six_fifths round64_six_fifths_times_100)

lemma budget_100_120: "budget wallet_100_120 = Fin 100"
  by (simp add: wallet_100_120_def wallet_init_def)

text \<open>
  Whatever the budget and the transactions, the notice never reports an excess other than
  zero: the percentage it subtracts 100 from is the clamped one.
\<close>

lemma exceeded_by_is_zero:
  assumes "budgetNotice st = Some (b, ExceededBy x)"
  shows "x = Fin 0"
proof -
  obtain p where p: "percentageSpent (getBudgetData st) = min2 (Fin 100) p"
    by (simp add: getBudgetData_def Let_def)
  have ge: "num_ge (min2 (Fin 100) p) (Fin 100)"
    using assms by (auto simp add: budgetNotice_def p split: if_splits)
  have "min2 (Fin 100) p = Fin 100"
    using ge by (cases p) (auto simp add: min2_def num_ge_def num_le_def isNaN_def split: if_splits)
  then show ?thesis
    using assms by (auto simp add: budgetNotice_def p num_sub_def round64_def split: if_splits)
qed

text \<open>
  What the budget view reports in general: the remaining amount is the larger of 0 and
  budget minus expenses, and the percentage is the smaller of 100 and the expenses
  divided by the budget times 100 (0 when the budget is not greater than 0).
\<close>

lemma budget_data_general:
  "spent (getBudgetData st)
     = sum_amounts (filter (\<lambda>t. tx_type t = expense) (transactions st)) \<and>
   remaining (getBudgetData st)
     = max2 (Fin 0) (num_sub (budget st) (spent (getBudgetData st))) \<and>
   percentageSpent (getBudgetData st)
     = min2 (Fin 100)
         (if num_greater (budget st) (Fin 0)
          then num_mul (num_div (spent (getBudgetData st)) (budget st)) (Fin 100)
          else Fin 0)"
  by (simp add: getBudgetData_def Let_def sum_amounts_def foldl_map)

lemma percentage_clamped:
  "percentageSpent (getBudgetData st) = NaN \<or> num_le (percentageSpent (getBudgetData st)) (Fin 100)"
proof -
  obtain p where p: "percentageSpent (getBudgetData st) = min2 (Fin 100) p"
    by (simp add: getBudgetData_def Let_def)
  show ?thesis
    unfolding p by (cases p) (simp_all add: min2_def num_le_def isNaN_def)
qed

text \<open>
  C1. With budget 100 and expenses of 120 the budget view reports remaining 0 and a
  percentage spent of 100, as specified; but the notice reports the budget exceeded by
  0 percent, not by the 20 percent of the unclamped percentage minus 100.
\<close>

theorem budget_view_100_120:
  "getBudgetData wallet_100_120 =
     \<lparr>bd_budget = Fin 100, spent = Fin 120, remaining = Fin 0, percentageSpent = Fin 100\<rparr> \<and>
   budgetNotice wallet_100_120 = Some (band_red, ExceededBy (Fin 0)) \<and>
   budgetNotice wallet_100_120 \<noteq> Some (band_red, ExceededBy (Fin 20))"
  by (simp add: budgetNotice_def budget_data_100_120 budget_100_120 num_ge_def num_le_def
       isNaN_def num_sub_def num_greater_def round64_def)


section \<open>Deleting the selected record\<close>

lemma length_filter_split:
  "length (filter (\<lambda>x. \<not> P x) xs) + length (filter P xs) = length xs"
  by (induction xs) auto

lemma delete_task_selected:
  assumes "selectedTaskId st = Some sel"
  shows "tasks (delete_task st) = filter (\<lambda>task. task_id task \<noteq> sel) (tasks st)"
    and "length (tasks (delete_task st)) + length (filter (\<lambda>task. task_id task = sel) (tasks st))
           = length (tasks st)"
    and "selectedTaskId (delete_task st) = None"
  using assms length_filter_split[of "\<lambda>task. task_id task = sel" "tasks st"]
  by (simp_all add: delete_task_def)

lemma deleteTransaction_selected:
  assumes "selectedTransactionId w = Some sel"
  shows "transactions (deleteTransaction w) = filter (\<lambda>t. tx_id t \<noteq> sel) (transactions w)"
    and "length (transactions (deleteTransaction w))
           + length (filter (\<lambda>t. tx_id t = sel) (transactions w)) = length (transactions w)"
    and "selectedTransactionId (deleteTransaction w) = None"
  using assms length_filter_split[of "\<lambda>t. tx_id t = sel" "transactions w"]
  by (simp_all add: deleteTransaction_def)

lemma run_add_task_ids:
  "map task_id (tasks (run_add_task a st)) =
     map task_id (tasks st) @ (if valid_task_op a then [op_now a] else [])"
  by (simp add: run_add_task_def add_task_def valid_task_op_def Let_def)

lemma fold_run_add_task_ids:
  "map task_id (tasks (fold run_add_task ops st)) =
     map task_id (tasks st) @ map op_now (filter valid_task_op ops)"
  by (induction ops arbitrary: st) (simp_all add: run_add_task_ids)

lemma same_clock_state_ids:
  "map task_id (tasks same_clock_state) = [1700000000000, 1700000000000]"
  unfolding same_clock_state_def fold_run_add_task_ids
  by (simp add: valid_buy_milk valid_call_mum todo_init_def) (simp add: buy_milk_def call_mum_def)

lemma same_clock_ids:
  "map task_id (tasks same_clock_selected) = [1700000000000, 1700000000000]"
  by (simp add: same_clock_selected_def same_clock_state_ids)

lemma two_tasks_state_ids:
  "map task_id (tasks two_tasks_state) = [1700000000000, 1700000000001]"
  unfolding two_tasks_state_def fold_run_add_task_ids
  by (simp add: valid_buy_milk valid_pay_rent todo_init_def) (simp add: buy_milk_def pay_rent_def)

lemma two_tasks_ids:
  "map task_id (tasks two_tasks_selected) = [1700000000000, 1700000000001]"
  by (simp add: two_tasks_selected_def two_tasks_state_ids)

lemma count_by_id:
  "length (filter (\<lambda>t. f t = k) xs) = length (filter (\<lambda>i. i = k) (map f xs))"
  by (induction xs) auto

lemma count_by_other_id:
  "length (filter (\<lambda>t. f t \<noteq> k) xs) = length (filter (\<lambda>i. i \<noteq> k) (map f xs))"
  by (induction xs) auto

text \<open>
  C2 (as amended). With a record selected, deleting removes every record that carries
  the selected id and clears the selection: the length goes down by the number of such
  records, which is exactly 1 when exactly one record carries the selected id. With no
  selection the state is unchanged. Both for the todo page and for the wallet page.
\<close>

theorem delete_removes_carriers:
  "(\<forall>sel. selectedTaskId st = Some sel \<longrightarrow>
      tasks (delete_task st) = filter (\<lambda>task. task_id task \<noteq> sel) (tasks st) \<and>
      length (tasks (delete_task st)) + length (filter (\<lambda>task. task_id task = sel) (tasks st))
        = length (tasks st) \<and>
      selectedTaskId (delete_task st) = None \<and>
      (length (filter (\<lambda>task. task_id task = sel) (tasks st)) = 1 \<longrightarrow>
         length (tasks (delete_task st)) + 1 = length (tasks st))) \<and>
   (selectedTaskId st = None \<longrightarrow> delete_task st = st) \<and>
   (\<forall>sel. selectedTransactionId w = Some sel \<longrightarrow>
      transactions (deleteTransaction w) = filter (\<lambda>t. tx_id t \<noteq> sel) (transactions w) \<and>
      length (transactions (deleteTransaction w))
        + length (filter (\<lambda>t. tx_id t = sel) (transactions w)) = length (transactions w) \<and>
      selectedTransactionId (deleteTransaction w) = None \<and>
      (length (filter (\<lambda>t. tx_id t = sel) (transactions w)) = 1 \<longrightarrow>
         length (transactions (deleteTransaction w)) + 1 = length (transactions w))) \<and>
   (selectedTransactionId w = None \<longrightarrow> deleteTransaction w = w)"
proof (intro conjI allI impI)
  fix sel assume s: "selectedTaskId st = Some sel"
  show "tasks (delete_task st) = filter (\<lambda>task. task_id task \<noteq> sel) (tasks st)"
    by (rule delete_task_selected(1)[OF s])
  show "length (tasks (delete_task st)) + length (filter (\<lambda>task. task_id task = sel) (tasks st))
          = length (tasks st)"
    by (rule delete_task_selected(2)[OF s])
  show "selectedTaskId (delete_task st) = None"
    by (rule delete_task_selected(3)[OF s])
  show "length (tasks (delete_task st)) + 1 = length (tasks st)"
    if "length (filter (\<lambda>task. task_id task = sel) (tasks st)) = 1"
    using delete_task_selected(2)[OF s] that by simp
next
  assume "selectedTaskId st = None"
  then show "delete_task st = st" by (simp add: delete_task_def)
next
  fix sel assume s: "selectedTransactionId w = Some sel"
  show "transactions (deleteTransaction w) = filter (\<lambda>t. tx_id t \<noteq> sel) (transactions w)"
    by (rule deleteTransaction_selected(1)[OF s])
  show "length (transactions (deleteTransaction w))
          + length (filter (\<lambda>t. tx_id t = sel) (transactions w)) = length (transactions w)"
    by (rule deleteTransaction_selected(2)[OF s])
  show "selectedTransactionId (deleteTransaction w) = None"
    by (rule deleteTransaction_selected(3)[OF s])
  show "length (transactions (deleteTransaction w)) + 1 = length (transactions w)"
    if "length (filter (\<lambda>t. tx_id t = sel) (transactions w)) = 1"
    using deleteTransaction_selected(2)[OF s] that by simp
next
  assume "selectedTransactionId w = None"
  then show "deleteTransaction w = w" by (simp add: deleteTransaction_def)
qed

theorem delete_removes_carriers_witness:
  "selectedTaskId two_tasks_selected = Some 1700000000000 \<and>
   length (filter (\<lambda>task. task_id task = 1700000000000) (tasks two_tasks_selected)) = 1 \<and>
   length (tasks two_tasks_selected) = 2 \<and>
   length (tasks (delete_task two_tasks_selected)) + 1 = length (tasks two_tasks_selected) \<and>
   selectedTaskId (delete_task two_tasks_selected) = None \<and>
   selectedTaskId (todo_init :: Task todo_state) = None \<and>
   delete_task (todo_init :: Task todo_state) = todo_init \<and>
   selectedTransactionId wallet_selected = Some 1 \<and>
   length (filter (\<lambda>t. tx_id t = 1) (transactions wallet_selected)) = 1 \<and>
   length (transactions (deleteTransaction wallet_selected)) + 1
     = length (transactions wallet_selected) \<and>
   selectedTransactionId (deleteTransaction wallet_selected) = None \<and>
   selectedTransactionId wallet_init = None \<and>
   deleteTransaction wallet_init = wallet_init"
proof -
  have s1: "selectedTaskId two_tasks_selected = Some 1700000000000"
    by (simp add: two_tasks_selected_def)
  have c1: "length (filter (\<lambda>task. task_id task = 1700000000000) (tasks two_tasks_selected)) = 1"
    by (simp add: count_by_id[of task_id] two_tasks_ids)
  have l1: "length (tasks two_tasks_selected) = 2"
    using arg_cong[OF two_tasks_ids, of length] by simp
  have n1: "selectedTaskId (todo_init :: Task todo_state) = None"
    by (simp add: todo_init_def)
  have s2: "selectedTransactionId wallet_selected = Some 1"
    by (simp add: wallet_selected_def)
  have c2: "length (filter (\<lambda>t. tx_id t = 1) (transactions wallet_selected)) = 1"
    by (simp add: wallet_selected_def wallet_100_120_def wallet_init_def)
  have n2: "selectedTransactionId wallet_init = None"
    by (simp add: wallet_init_def)
  note t1 = delete_removes_carriers[of two_tasks_selected wallet_selected]
  note t2 = delete_removes_carriers[of "todo_init :: Task todo_state" wallet_init]
  have d1: "length (tasks (delete_task two_tasks_selected)) + 1 = length (tasks two_tasks_selected)"
    using t1 s1 c1 by blast
  have e1: "selectedTaskId (delete_task two_tasks_selected) = None"
    using t1 s1 by blast
  have u1: "delete_task (todo_init :: Task todo_state) = todo_init"
    using t2 n1 by blast
  have d2: "length (transactions (deleteTransaction wallet_selected)) + 1
              = length (transactions wallet_selected)"
    using t1 s2 c2 by blast
  have e2: "selectedTransactionId (deleteTransaction wallet_selected) = None"
    using t1 s2 by blast
  have u2: "deleteTransaction wallet_init = wallet_init"
    using t2 n2 by blast
  show ?thesis
    by (intro conjI s1 c1 l1 d1 e1 n1 u1 s2 c2 d2 e2 n2 u2)
qed

theorem delete_same_clock_counterexample:
  "selectedTaskId same_clock_selected = Some 1700000000000 \<and>
   length (tasks same_clock_selected) = 2 \<and>
   length (tasks (delete_task same_clock_selected)) = 0"
proof -
  have s: "selectedTaskId same_clock_selected = Some 1700000000000"
    by (simp add: same_clock_selected_def)
  have l: "length (tasks same_clock_selected) = 2"
    using arg_cong[OF same_clock_ids, of length] by simp
  have "length (filter (\<lambda>task. task_id task \<noteq> 1700000000000) (tasks same_clock_selected)) = 0"
    by (simp add: count_by_other_id[of task_id] same_clock_ids)
  then have "length (tasks (delete_task same_clock_selected)) = 0"
    by (simp only: delete_task_selected(1)[OF s])
  then show ?thesis using s l by simp
qed


section \<open>Sequences of add operations\<close>

lemma run_add_transaction_ids:
  "map tx_id (transactions (run_add_transaction parseFloat a w)) =
     map tx_id (transactions w) @ (if valid_transaction_op parseFloat a then [top_now a] else [])"
  by (simp add: run_add_transaction_def addTransaction_def valid_transaction_op_def Let_def)

lemma fold_run_add_transaction_ids:
  "map tx_id (transactions (fold (run_add_transaction parseFloat) ops w)) =
     map tx_id (transactions w) @ map top_now (filter (valid_transaction_op parseFloat) ops)"
  by (induction ops arbitrary: w) (simp_all add: run_add_transaction_ids)

lemma valid_salary: "valid_transaction_op read_amount salary"
  by (simp add: valid_transaction_op_def salary_def read_amount_def trim_def js_def
        is_trim_space_def isNaN_def num_greater_def)

lemma valid_shoes: "valid_transaction_op read_amount shoes"
  by (simp add: valid_transaction_op_def shoes_def read_amount_def trim_def js_def
        is_trim_space_def isNaN_def num_greater_def)

text \<open>
  C3 (as amended). After any sequence of add operations the collection has grown by the
  number of operations whose input passed validation (for a task: text not empty once
  trimmed; for a transaction: amount text not empty once trimmed, parsed amount a number
  greater than 0, description not empty once trimmed), and the ids of the records are
  the ids before followed by the clock readings of the valid operations, in order: they
  are pairwise distinct when those readings are pairwise distinct and differ from the
  ids already in the store.
\<close>

theorem adds_length_and_ids:
  "length (tasks (fold run_add_task ops st))
     = length (tasks st) + length (filter valid_task_op ops) \<and>
   map task_id (tasks (fold run_add_task ops st))
     = map task_id (tasks st) @ map op_now (filter valid_task_op ops) \<and>
   (distinct (map task_id (tasks st) @ map op_now (filter valid_task_op ops)) \<longrightarrow>
      distinct (map task_id (tasks (fold run_add_task ops st)))) \<and>
   length (transactions (fold (run_add_transaction parseFloat) tops w))
     = length (transactions w) + length (filter (valid_transaction_op parseFloat) tops) \<and>
   map tx_id (transactions (fold (run_add_transaction parseFloat) tops w))
     = map tx_id (transactions w) @ map top_now (filter (valid_transaction_op parseFloat) tops) \<and>
   (distinct (map tx_id (transactions w)
              @ map top_now (filter (valid_transaction_op parseFloat) tops)) \<longrightarrow>
      distinct (map tx_id (transactions (fold (run_add_transaction parseFloat) tops w))))"
proof -
  have "length (map task_id (tasks (fold run_add_task ops st)))
          = length (map task_id (tasks st) @ map op_now (filter valid_task_op ops))"
    by (simp only: fold_run_add_task_ids)
  then have a: "length (tasks (fold run_add_task ops st))
                  = length (tasks st) + length (filter valid_task_op ops)"
    by simp
  have "length (map tx_id (transactions (fold (run_add_transaction parseFloat) tops w)))
          = length (map tx_id (transactions w)
                    @ map top_now (filter (valid_transaction_op parseFloat) tops))"
    by (simp only: fold_run_add_transaction_ids)
  then have b: "length (transactions (fold (run_add_transaction parseFloat) tops w))
                  = length (transactions w) + length (filter (valid_transaction_op parseFloat) tops)"
    by simp
  show ?thesis
    using a b by (simp only: fold_run_add_task_ids fold_run_add_transaction_ids) simp
qed

theorem adds_length_and_ids_witness:
  "distinct (map task_id (tasks (todo_init :: Task todo_state))
             @ map op_now (filter valid_task_op [buy_milk, pay_rent])) \<and>
   length (tasks (fold run_add_task [buy_milk, pay_rent] todo_init)) = 2 \<and>
   distinct (map task_id (tasks (fold run_add_task [buy_milk, pay_rent] todo_init))) \<and>
   distinct (map tx_id (transactions wallet_init)
             @ map top_now (filter (valid_transaction_op read_amount) [salary, shoes])) \<and>
   length (transactions (fold (run_add_transaction read_amount) [salary, shoes] wallet_init)) = 2 \<and>
   distinct (map tx_id
     (transactions (fold (run_add_transaction read_amount) [salary, shoes] wallet_init)))"
proof -
  note t = adds_length_and_ids[of "[buy_milk, pay_rent]" todo_init read_amount
      "[salary, shoes]" wallet_init]
  have f1: "filter valid_task_op [buy_milk, pay_rent] = [buy_milk, pay_rent]"
    by (simp add: valid_buy_milk valid_pay_rent)
  have f2: "filter (valid_transaction_op read_amount) [salary, shoes] = [salary, shoes]"
    by (simp add: valid_salary valid_shoes)
  have d1: "distinct (map task_id (tasks (todo_init :: Task todo_state))
                      @ map op_now (filter valid_task_op [buy_milk, pay_rent]))"
    unfolding f1 by (simp add: todo_init_def buy_milk_def pay_rent_def)
  have d2: "distinct (map tx_id (transactions wallet_init)
                      @ map top_now (filter (valid_transaction_op read_amount) [salary, shoes]))"
    unfolding f2 by (simp add: wallet_init_def salary_def shoes_def)
  have l1: "length (tasks (fold run_add_task [buy_milk, pay_rent] todo_init)) = 2"
    using t unfolding f1 by (simp add: todo_init_def)
  have l2: "length (transactions (fold (run_add_transaction read_amount) [salary, shoes]
              wallet_init)) = 2"
    using t unfolding f2 by (simp add: wallet_init_def)
  have r1: "distinct (map task_id (tasks (fold run_add_task [buy_milk, pay_rent] todo_init)))"
    using t d1 by blast
  have r2: "distinct (map tx_id
     (transactions (fold (run_add_transaction read_amount) [salary, shoes] wallet_init)))"
    using t d2 by blast
  show ?thesis
    by (intro conjI d1 l1 r1 d2 l2 r2)
qed

theorem adds_same_clock_counterexample:
  "valid_task_op buy_milk \<and> valid_task_op call_mum \<and>
   \<not> distinct (map task_id (tasks (fold run_add_task [buy_milk, call_mum] todo_init)))"
proof -
  have "map task_id (tasks (fold run_add_task [buy_milk, call_mum] todo_init))
          = [1700000000000, 1700000000000]"
    using same_clock_state_ids by (simp only: same_clock_state_def)
  then have "\<not> distinct (map task_id (tasks (fold run_add_task [buy_milk, call_mum] todo_init)))"
    by (simp only:) simp
  then show ?thesis
    using valid_buy_milk valid_call_mum by (intro conjI)
qed


section \<open>Sorting by priority\<close>

lemma insert_by_difference:
  "insert_by (\<lambda>a b. f a - f b) x ys = insort_key f x ys" for f :: "'a \<Rightarrow> int"
  by (induction ys) simp_all

lemma array_sort_difference:
  "array_sort (\<lambda>a b. f a - f b) xs = sort_key f xs" for f :: "'a \<Rightarrow> int"
  by (induction xs) (simp_all add: array_sort_def insert_by_difference)

lemma sortTasksByPriority_tasks:
  "tasks (sortTasksByPriority st) =
     sort_key (\<lambda>t. getPriorityOrder (task_priority t)) (tasks st)"
  by (simp add: sortTasksByPriority_def
        array_sort_difference[of "\<lambda>t. getPriorityOrder (task_priority t)"])

lemma sort_key_keeps_class:
  assumes "\<And>t. g t = p \<Longrightarrow> f t = k"
  shows "filter (\<lambda>t. g t = p) (sort_key f xs) = filter (\<lambda>t. g t = p) xs"
proof -
  have narrow: "filter (\<lambda>t. g t = p) ys = filter (\<lambda>t. g t = p) (filter (\<lambda>t. f t = k) ys)" for ys
    using assms by (induction ys) auto
  have "filter (\<lambda>t. g t = p) (sort_key f xs)
          = filter (\<lambda>t. g t = p) (filter (\<lambda>t. f t = k) (sort_key f xs))"
    by (rule narrow)
  also have "\<dots> = filter (\<lambda>t. g t = p) (filter (\<lambda>t. f t = k) xs)"
    by (simp only: sort_key_stable)
  also have "\<dots> = filter (\<lambda>t. g t = p) xs"
    by (rule narrow[symmetric])
  finally show ?thesis .
qed

text \<open>
  C6. \<open>sortTasksByPriority\<close> orders the tasks by ascending rank, the ranks being
  Critical 0, High 1, Medium 2, Low 3; it keeps the tasks (as a multiset); it is stable:
  for every priority, the tasks of that priority come out in the order they went in; and
  sorting a second time changes nothing.
\<close>

theorem sortTasksByPriority_stable_idempotent:
  "getPriorityOrder Critical = 0 \<and> getPriorityOrder High = 1 \<and>
   getPriorityOrder Medium = 2 \<and> getPriorityOrder Low = 3 \<and>
   sorted (map (\<lambda>t. getPriorityOrder (task_priority t)) (tasks (sortTasksByPriority st))) \<and>
   mset (tasks (sortTasksByPriority st)) = mset (tasks st) \<and>
   (\<forall>p. filter (\<lambda>t. task_priority t = p) (tasks (sortTasksByPriority st))
          = filter (\<lambda>t. task_priority t = p) (tasks st)) \<and>
   sortTasksByPriority (sortTasksByPriority st) = sortTasksByPriority st"
proof -
  let ?f = "\<lambda>t. getPriorityOrder (task_priority t)"
  have s: "sorted (map ?f (tasks (sortTasksByPriority st)))"
    by (simp only: sortTasksByPriority_tasks sorted_sort_key)
  have m: "mset (tasks (sortTasksByPriority st)) = mset (tasks st)"
    by (simp only: sortTasksByPriority_tasks mset_sort)
  have k: "filter (\<lambda>t. task_priority t = p) (tasks (sortTasksByPriority st))
             = filter (\<lambda>t. task_priority t = p) (tasks st)" for p
    unfolding sortTasksByPriority_tasks
    by (rule sort_key_keeps_class[where k = "getPriorityOrder p"]) simp
  have "sort_key ?f (tasks (sortTasksByPriority st)) = tasks (sortTasksByPriority st)"
    using s by (rule sort_key_id_if_sorted)
  then have "tasks (sortTasksByPriority (sortTasksByPriority st)) = tasks (sortTasksByPriority st)"
    by (simp only: sortTasksByPriority_tasks[of "sortTasksByPriority st"])
  then have i: "sortTasksByPriority (sortTasksByPriority st) = sortTasksByPriority st"
    by (simp add: sortTasksByPriority_def)
  show ?thesis
    using s m k i by simp
qed


section \<open>Filtering\<close>

text \<open>
  C8. For every lower-casing function, search term and pair of filters, filtering the
  filtered list again gives the same list, and the filtered list is a subsequence of the
  collection: records are neither reordered nor changed. The filter is a function of the
  state that returns a list; the state itself is not an output. Both for tasks and for
  transactions.
\<close>

theorem filters_idempotent_subseq:
  "filter_tasks lc s fc fp (filter_tasks lc s fc fp ts) = filter_tasks lc s fc fp ts \<and>
   subseq (filter_tasks lc s fc fp ts) ts \<and>
   getFilteredTasks lc (st\<lparr>tasks := getFilteredTasks lc st\<rparr>) = getFilteredTasks lc st \<and>
   subseq (getFilteredTasks lc st) (tasks st) \<and>
   filter_transactions lc s fc ft xs = filter_transactions lc s fc ft (filter_transactions lc s fc ft xs) \<and>
   subseq (filter_transactions lc s fc ft xs) xs \<and>
   getFilteredTransactions lc (w\<lparr>transactions := getFilteredTransactions lc w\<rparr>)
     = getFilteredTransactions lc w \<and>
   subseq (getFilteredTransactions lc w) (transactions w)"
  by (simp add: filter_tasks_def getFilteredTasks_def filter_transactions_def
        getFilteredTransactions_def)


section \<open>Toggling the selected task\<close>

lemma mark_done_tasks:
  "tasks (mark_done st) =
     map (\<lambda>task. if selectedTaskId st = Some (task_id task)
                  then task\<lparr>task_completed := \<not> task_completed task\<rparr> else task)
       (tasks st)"
  by (cases "selectedTaskId st") (auto simp add: mark_done_def map_idI)

lemma mark_done_rest: "mark_done st = st\<lparr>tasks := tasks (mark_done st)\<rparr>"
  by (cases "selectedTaskId st") (simp_all add: mark_done_def)

lemma two_tasks_state_tasks:
  "tasks two_tasks_state =
     [\<lparr>task_id = 1700000000000, task_text = js ''Buy milk'', task_completed = False,
       task_createdAt = js ''11/14/2023, 10:13:20 PM'', task_category = Shopping,
       task_priority = High\<rparr>,
      \<lparr>task_id = 1700000000001, task_text = js ''Pay rent'', task_completed = False,
       task_createdAt = js ''11/14/2023, 10:13:20 PM'', task_category = Home,
       task_priority = Critical\<rparr>]"
  by (simp add: two_tasks_state_def run_add_task_def add_task_def todo_init_def buy_milk_def
        pay_rent_def trim_buy_milk trim_pay_rent Let_def)

text \<open>
  C10. \<open>mark_done\<close> leaves the selection and every state variable other than the task
  list unchanged; the task list keeps its length, and at every position the task is the
  old one, with \<open>completed\<close> negated when its id is the selected id and unchanged
  otherwise; so all fields other than \<open>completed\<close> are as before. When no task is
  selected, or no task carries the selected id, the state is unchanged. The statement
  holds for both versions of the page (any extension of the task and state records).
\<close>

theorem mark_done_frame:
  "selectedTaskId (mark_done st) = selectedTaskId st \<and>
   mark_done st = st\<lparr>tasks := tasks (mark_done st)\<rparr> \<and>
   length (tasks (mark_done st)) = length (tasks st) \<and>
   (\<forall>i < length (tasks st).
      tasks (mark_done st) ! i =
        (if selectedTaskId st = Some (task_id (tasks st ! i))
         then (tasks st ! i)\<lparr>task_completed := \<not> task_completed (tasks st ! i)\<rparr>
         else tasks st ! i)) \<and>
   (\<forall>c. map (\<lambda>t. t\<lparr>task_completed := c\<rparr>) (tasks (mark_done st))
          = map (\<lambda>t. t\<lparr>task_completed := c\<rparr>) (tasks st)) \<and>
   ((\<forall>sel. selectedTaskId st = Some sel \<longrightarrow> sel \<notin> task_id ` set (tasks st)) \<longrightarrow>
      mark_done st = st)"
proof (intro conjI allI impI)
  show "selectedTaskId (mark_done st) = selectedTaskId st"
    by (cases "selectedTaskId st") (simp_all add: mark_done_def)
  show "mark_done st = st\<lparr>tasks := tasks (mark_done st)\<rparr>"
    by (rule mark_done_rest)
  show "length (tasks (mark_done st)) = length (tasks st)"
    by (simp add: mark_done_tasks)
  show "tasks (mark_done st) ! i =
        (if selectedTaskId st = Some (task_id (tasks st ! i))
         then (tasks st ! i)\<lparr>task_completed := \<not> task_completed (tasks st ! i)\<rparr>
         else tasks st ! i)" if "i < length (tasks st)" for i
    using that by (simp add: mark_done_tasks)
  show "map (\<lambda>t. t\<lparr>task_completed := c\<rparr>) (tasks (mark_done st))
          = map (\<lambda>t. t\<lparr>task_completed := c\<rparr>) (tasks st)" for c
    by (simp add: mark_done_tasks)
  show "mark_done st = st"
    if "\<forall>sel. selectedTaskId st = Some sel \<longrightarrow> sel \<notin> task_id ` set (tasks st)"
  proof -
    have "tasks (mark_done st) = tasks st"
      using that by (auto simp add: mark_done_tasks intro!: map_idI)
    then show ?thesis using mark_done_rest[of st] by simp
  qed
qed

theorem mark_done_frame_witness:
  "selectedTaskId two_tasks_selected = Some 1700000000000 \<and>
   length (tasks two_tasks_selected) = 2 \<and>
   tasks (mark_done two_tasks_selected) ! 0
     = (tasks two_tasks_selected ! 0)\<lparr>task_completed := True\<rparr> \<and>
   tasks (mark_done two_tasks_selected) ! 1 = tasks two_tasks_selected ! 1 \<and>
   selectedTaskId two_tasks_state = None \<and>
   mark_done two_tasks_state = two_tasks_state"
proof -
  have ts: "tasks two_tasks_selected = tasks two_tasks_state"
    by (simp add: two_tasks_selected_def)
  have s: "selectedTaskId two_tasks_selected = Some 1700000000000"
    by (simp add: two_tasks_selected_def)
  have l: "length (tasks two_tasks_selected) = 2"
    by (simp add: ts two_tasks_state_tasks)
  have n: "selectedTaskId two_tasks_state = None"
    by (simp add: two_tasks_state_def run_add_task_def add_task_def todo_init_def Let_def)
  note t1 = mark_done_frame[of two_tasks_selected]
  note t2 = mark_done_frame[of two_tasks_state]
  have i0: "(0::nat) < length (tasks two_tasks_selected)" and i1: "(1::nat) < length (tasks two_tasks_selected)"
    using l by simp_all
  have a: "tasks (mark_done two_tasks_selected) ! 0 =
        (if selectedTaskId two_tasks_selected = Some (task_id (tasks two_tasks_selected ! 0))
         then (tasks two_tasks_selected ! 0)
                \<lparr>task_completed := \<not> task_completed (tasks two_tasks_selected ! 0)\<rparr>
         else tasks two_tasks_selected ! 0)"
    using t1 i0 by blast
  have b: "tasks (mark_done two_tasks_selected) ! 1 =
        (if selectedTaskId two_tasks_selected = Some (task_id (tasks two_tasks_selected ! 1))
         then (tasks two_tasks_selected ! 1)
                \<lparr>task_completed := \<not> task_completed (tasks two_tasks_selected ! 1)\<rparr>
         else tasks two_tasks_selected ! 1)"
    using t1 i1 by blast
  have a': "tasks (mark_done two_tasks_selected) ! 0
              = (tasks two_tasks_selected ! 0)\<lparr>task_completed := True\<rparr>"
    unfolding a by (simp add: s ts two_tasks_state_tasks)
  have b': "tasks (mark_done two_tasks_selected) ! 1 = tasks two_tasks_selected ! 1"
    unfolding b by (simp add: s ts two_tasks_state_tasks)
  have u: "mark_done two_tasks_state = two_tasks_state"
    using t2 n by simp
  show ?thesis
    by (intro conjI s l a' b' n u)
qed


section \<open>Import\<close>

lemma hasOwnProperty_true: "hasOwnProperty e k = Inr True \<Longrightarrow> has_key e k"
  by (cases e) (auto split: if_splits)

lemma has_all_true: "has_all e ks = Inr True \<Longrightarrow> list_all (has_key e) ks"
proof (induction ks)
  case Nil
  then show ?case by simp
next
  case (Cons k ks)
  then show ?case
    by (auto split: sum.splits bool.splits if_splits dest: hasOwnProperty_true)
qed

lemma every_task_true:
  "every_task ts = Inr True \<Longrightarrow> list_all (\<lambda>e. list_all (has_key e) required_keys) ts"
proof (induction ts)
  case Nil
  then show ?case by simp
next
  case (Cons e ts)
  then show ?case
    by (auto split: sum.splits bool.splits if_splits dest: has_all_true)
qed

lemma get_tasks_array:
  "get_tasks data = Inr (Some (JArray ts)) \<Longrightarrow>
     \<exists>kvs. data = JObject kvs \<and> map_of kvs (js ''tasks'') = Some (JArray ts)"
  by (cases data) auto

lemma Array_isArray_elements: "Array_isArray field \<Longrightarrow> field = Some (JArray (elements field))"
  by (cases field rule: Array_isArray.cases) auto

text \<open>An import that does not announce success leaves the state as it was.\<close>

lemma import_rejected_unchanged:
  assumes "handleFileImport parse file st = (st', a)" and "a \<noteq> Some ImportedSuccessfully"
  shows "st' = st"
  using assms
  by (auto simp add: handleFileImport_def import_try_def
        split: option.splits sum.splits if_splits)

text \<open>An import announces success only for a well-formed file, and then takes its array.\<close>

lemma import_success_well_formed:
  assumes "handleFileImport parse (Some content) st = (st', Some ImportedSuccessfully)"
  shows "\<exists>data ts. parse content = Inr data \<and> well_formed_import data \<and>
           get_tasks data = Inr (Some (JArray ts)) \<and>
           st' = st\<lparr>tasks := ts, selectedTaskId := None\<rparr>"
proof -
  from assms obtain data field where p: "parse content = Inr data"
    and g: "get_tasks data = Inr field" and a: "Array_isArray field"
    and e: "every_task (elements field) = Inr True"
    and s: "st' = st\<lparr>tasks := elements field, selectedTaskId := None\<rparr>"
    by (auto simp add: handleFileImport_def import_try_def
          split: option.splits sum.splits if_splits)
  from a have f: "field = Some (JArray (elements field))" by (rule Array_isArray_elements)
  with g have g': "get_tasks data = Inr (Some (JArray (elements field)))" by simp
  from get_tasks_array[OF g'] obtain kvs where d: "data = JObject kvs"
    and m: "map_of kvs (js ''tasks'') = Some (JArray (elements field))" by blast
  have "well_formed_import data"
    using every_task_true[OF e] by (simp add: well_formed_import_def d m)
  with p g' s show ?thesis by blast
qed

text \<open>
  Hence every malformed input (a text that does not parse, or a parsed value that is not
  well formed) is rejected with an alert and leaves the state unchanged.
\<close>

lemma import_malformed_rejected:
  assumes "\<not> (\<exists>data. parse content = Inr data \<and> well_formed_import data)"
  shows "\<exists>a. handleFileImport parse (Some content) st = (st, Some a) \<and> a \<noteq> ImportedSuccessfully"
proof -
  obtain st' a where r: "handleFileImport parse (Some content) st = (st', Some a)"
    by (cases "import_try parse content st") (auto simp add: handleFileImport_def)
  have n: "a \<noteq> ImportedSuccessfully"
  proof
    assume "a = ImportedSuccessfully"
    with r import_success_well_formed[of parse content st st'] assms show False by blast
  qed
  then have "st' = st" using import_rejected_unchanged[OF r] by simp
  with r n show ?thesis by blast
qed





text \<open>
  C4. The parsed file \<open>shadowing_document\<close> passes every check of the specification: it is an
  object, its \<open>tasks\<close> property is an array, and its one element possesses the keys id,
  text, completed, category and priority. The import nevertheless rejects it, with the
  alert for an unreadable file, and leaves the prior state unchanged: the element's own
  property \<open>hasOwnProperty\<close> makes the call \<open>task.hasOwnProperty('id')\<close> throw.
\<close>

theorem import_rejects_shadowing_document:
  "well_formed_import shadowing_document \<and>
   handleFileImport (\<lambda>content. Inr shadowing_document) (Some content) st
     = (st, Some ErrorReadingFile)"
  by (simp add: well_formed_import_def shadowing_document_def required_keys_def
        handleFileImport_def import_try_def)


section \<open>Export followed by import\<close>






text \<open>
  The export, unfolded: the file name is built from the later clock reading, and the
  content is \<open>stringify\<close> applied to the document that wraps the store.
\<close>

lemma saveTasksToFile_content:
  "snd (saveTasksToFile stringify exportDate fileDate st)
     = stringify (JObject [(js ''tasks'', JArray (tasks st)),
                           (js ''exportDate'', JString exportDate),
                           (js ''version'', JString (js ''1.0''))])"
  by (simp add: saveTasksToFile_def dataToSave_def)





section \<open>Analytics\<close>

subsection \<open>Sums of positive amounts\<close>

lemma rounded_nonneg: "0 \<le> x \<Longrightarrow> 0 \<le> of_int (round_half_even (x / pow2 q)) * pow2 q"
proof -
  assume "0 \<le> x"
  then have "0 \<le> x / pow2 q" using pow2_pos[of q] by (intro divide_nonneg_pos)
  then have "0 \<le> round_half_even (x / pow2 q)" by (rule round_half_even_nonneg)
  then have "(0::rat) \<le> of_int (round_half_even (x / pow2 q))" by simp
  then show ?thesis by (intro mult_nonneg_nonneg) (simp_all add: less_imp_le[OF pow2_pos])
qed

lemma round64_nonneg: "0 \<le> x \<Longrightarrow> nonneg_num (round64 x)"
  using rounded_nonneg[of x "max (ilog2 x - 52) (- 1074)"]
  by (auto simp add: round64_def Let_def)

lemma num_add_nonneg: "nonneg_num a \<Longrightarrow> nonneg_num b \<Longrightarrow> nonneg_num (num_add a b)"
  by (cases a; cases b) (simp_all add: round64_nonneg)

lemma positive_nonneg: "num_greater b (Fin 0) \<Longrightarrow> nonneg_num b"
  by (cases b) (simp_all add: num_greater_def)

lemma foldl_num_add_nonneg:
  "nonneg_num a \<Longrightarrow> list_all nonneg_num xs \<Longrightarrow> nonneg_num (foldl num_add a xs)"
  by (induction xs arbitrary: a) (simp_all add: num_add_nonneg)

lemma nonneg_not_NaN: "nonneg_num a \<Longrightarrow> a \<noteq> NaN"
  by (cases a) simp_all

lemma num_le_refl: "a \<noteq> NaN \<Longrightarrow> num_le a a"
  by (cases a) (simp_all add: num_le_def isNaN_def)

lemma num_le_trans: "num_le a b \<Longrightarrow> num_le b c \<Longrightarrow> num_le a c"
  by (cases a; cases b; cases c) (simp_all add: num_le_def isNaN_def)

lemma max2_cases:
  assumes "a \<noteq> NaN" and "b \<noteq> NaN"
  shows "max2 a b \<noteq> NaN" and "max2 a b = a \<or> max2 a b = b"
    and "num_le a (max2 a b)" and "num_le b (max2 a b)"
  using assms by (cases a; cases b; simp add: max2_def isNaN_def num_le_def)+

lemma foldl_max2:
  assumes "a \<noteq> NaN" and "list_all (\<lambda>x. x \<noteq> NaN) xs"
  shows "foldl max2 a xs \<noteq> NaN"
    and "foldl max2 a xs = a \<or> foldl max2 a xs \<in> set xs"
    and "num_le a (foldl max2 a xs)"
    and "list_all (\<lambda>x. num_le x (foldl max2 a xs)) xs"
  using assms
proof (induction xs arbitrary: a)
  case Nil
  {
    case 1 then show ?case by simp
  next
    case 2 then show ?case by simp
  next
    case 3 then show ?case by (simp add: num_le_refl)
  next
    case 4 then show ?case by simp
  }
next
  case (Cons x xs)
  {
    case 1
    then show ?case using Cons.IH(1)[of "max2 a x"] max2_cases(1)[of a x] by simp
  next
    case 2
    then show ?case using Cons.IH(2)[of "max2 a x"] max2_cases(1,2)[of a x] by auto
  next
    case 3
    then show ?case
      using Cons.IH(3)[of "max2 a x"] max2_cases(1,3)[of a x] num_le_trans by auto
  next
    case 4
    then show ?case
      using Cons.IH(3,4)[of "max2 a x"] max2_cases(1,4)[of a x] num_le_trans by auto
  }
qed

lemma Math_max_is_maximum:
  assumes "xs \<noteq> []" and "list_all (\<lambda>x. x \<noteq> NaN) xs"
  shows "Math_max xs \<in> set xs" and "list_all (\<lambda>x. num_le x (Math_max xs)) xs"
proof -
  note f = foldl_max2[of NInf xs, OF _ assms(2), simplified]
  show all: "list_all (\<lambda>x. num_le x (Math_max xs)) xs"
    using f(4) by (simp add: Math_max_def)
  show "Math_max xs \<in> set xs"
  proof (cases "foldl max2 NInf xs = NInf")
    case True
    obtain x where x: "x \<in> set xs" using assms(1) by (cases xs) auto
    then have "num_le x NInf" using f(4) True by (simp add: list_all_iff)
    then have "x = NInf" by (cases x) (simp_all add: num_le_def isNaN_def)
    with x True show ?thesis by (simp add: Math_max_def)
  next
    case False
    then show ?thesis using f(2) by (simp add: Math_max_def)
  qed
qed

subsection \<open>The sums by category\<close>

lemma sum_amounts_snoc: "sum_amounts (xs @ [x]) = num_add (sum_amounts xs) (tx_amount x)"
  by (simp add: sum_amounts_def)

lemma sum_amounts_nonneg:
  "list_all (\<lambda>t. num_greater (tx_amount t) (Fin 0)) xs \<Longrightarrow> nonneg_num (sum_amounts xs)"
  unfolding sum_amounts_def
  by (rule foldl_num_add_nonneg) (auto simp add: list_all_iff intro: positive_nonneg)

lemma untruthy_nonneg: "nonneg_num a \<Longrightarrow> (if truthy_number a then a else Fin 0) = a"
  by (cases a) (simp_all add: truthy_number_def)

lemma by_category_lookup:
  assumes "list_all (\<lambda>t. num_greater (tx_amount t) (Fin 0)) xs"
  shows "map_of (foldl add_to_category [] xs) c =
           (if c \<in> tx_category ` set xs
            then Some (sum_amounts (filter (\<lambda>t. tx_category t = c) xs)) else None)"
  using assms
proof (induction xs arbitrary: c rule: rev_induct)
  case Nil
  show ?case by simp
next
  case (snoc x xs)
  then have pos: "list_all (\<lambda>t. num_greater (tx_amount t) (Fin 0)) xs" by simp
  let ?acc = "foldl add_to_category [] xs"
  let ?k = "tx_category x"
  have ih: "map_of ?acc d =
         (if d \<in> tx_category ` set xs
          then Some (sum_amounts (filter (\<lambda>t. tx_category t = d) xs)) else None)" for d
    using snoc.IH[OF pos] .
  have "list_all (\<lambda>t. num_greater (tx_amount t) (Fin 0)) (filter (\<lambda>t. tx_category t = ?k) xs)"
    using pos by (simp add: list_all_iff)
  then have nn: "nonneg_num (sum_amounts (filter (\<lambda>t. tx_category t = ?k) xs))"
    by (rule sum_amounts_nonneg)
  have cur: "(case map_of ?acc ?k of None \<Rightarrow> Fin 0
              | Some v \<Rightarrow> if truthy_number v then v else Fin 0)
             = sum_amounts (filter (\<lambda>t. tx_category t = ?k) xs)"
  proof (cases "?k \<in> tx_category ` set xs")
    case True
    then show ?thesis using ih[of ?k] untruthy_nonneg[OF nn] by simp
  next
    case False
    then have "filter (\<lambda>t. tx_category t = ?k) xs = []"
      by (simp add: filter_empty_conv) (metis imageI)
    then show ?thesis using ih[of ?k] False by (simp add: sum_amounts_def)
  qed
  have step: "add_to_category ?acc x
               = AList.update ?k (num_add (sum_amounts (filter (\<lambda>t. tx_category t = ?k) xs))
                                    (tx_amount x)) ?acc"
    by (simp add: add_to_category_def Let_def cur)
  show ?case
  proof (cases "c = ?k")
    case True
    then show ?thesis
      by (simp add: step update_conv' sum_amounts_snoc)
  next
    case False
    then show ?thesis
      using ih[of c] by (auto simp add: step update_conv')
  qed
qed

lemma by_category_distinct: "distinct (map fst (foldl add_to_category [] xs))"
  by (induction xs rule: rev_induct) (simp_all add: add_to_category_def Let_def distinct_update)

lemma positive_expenses:
  "positive_amounts st \<Longrightarrow>
     list_all (\<lambda>t. num_greater (tx_amount t) (Fin 0)) (filter (\<lambda>t. tx_type t = expense) (transactions st))"
  by (simp add: positive_amounts_def list_all_iff)

lemma positive_not_NaN: "num_greater a (Fin 0) \<Longrightarrow> a \<noteq> NaN"
  by (cases a) (simp_all add: num_greater_def)

lemma slices_of_distribution:
  "map (\<lambda>s. (slice_name s, slice_value s)) (getCategoryDistribution st) = expensesByCategory st"
  by (simp add: getCategoryDistribution_def case_prod_beta comp_def)

lemma slice_names_of_distribution:
  "map slice_name (getCategoryDistribution st) = map fst (expensesByCategory st)"
  by (simp add: getCategoryDistribution_def case_prod_beta comp_def)

text \<open>The invariant holds initially and is kept by adding, deleting and clearing.\<close>

lemma positive_amounts_init: "positive_amounts wallet_init"
  by (simp add: positive_amounts_def wallet_init_def)

lemma positive_amounts_addTransaction:
  "positive_amounts st \<Longrightarrow> positive_amounts (addTransaction parseFloat now localeString st)"
  by (simp add: positive_amounts_def addTransaction_def Let_def)

lemma positive_amounts_run_add_transaction:
  "positive_amounts st \<Longrightarrow> positive_amounts (run_add_transaction parseFloat a st)"
  by (simp add: positive_amounts_def run_add_transaction_def addTransaction_def Let_def)

lemma positive_amounts_adds:
  "positive_amounts st \<Longrightarrow> positive_amounts (fold (run_add_transaction parseFloat) ops st)"
  by (induction ops arbitrary: st) (simp_all add: positive_amounts_run_add_transaction)

lemma positive_amounts_clearAllTransactions: "positive_amounts (clearAllTransactions st)"
  by (simp add: positive_amounts_def clearAllTransactions_def)

lemma positive_amounts_deleteTransaction:
  "positive_amounts st \<Longrightarrow> positive_amounts (deleteTransaction st)"
  by (cases "selectedTransactionId st")
     (simp_all add: positive_amounts_def deleteTransaction_def list_all_iff)

lemma analytics_example_expenses:
  "filter (\<lambda>t. tx_type t = expense) (transactions analytics_example) =
     [\<lparr>tx_id = 2, tx_amount = Fin 200, tx_type = expense, tx_description = js ''shoes'',
       tx_category = Shopping, tx_createdAt = []\<rparr>,
      \<lparr>tx_id = 3, tx_amount = Fin 50, tx_type = expense, tx_description = js ''train'',
       tx_category = Work, tx_createdAt = []\<rparr>]"
  by (simp add: analytics_example_def wallet_init_def)

lemma analytics_example_incomes:
  "filter (\<lambda>t. tx_type t = income) (transactions analytics_example) =
     [\<lparr>tx_id = 1, tx_amount = Fin 1000, tx_type = income, tx_description = js ''salary'',
       tx_category = Work, tx_createdAt = []\<rparr>]"
  by (simp add: analytics_example_def wallet_init_def)

text \<open>
  C7. For every transaction list with positive amounts: totalIncome is the sum of the
  amounts of the income transactions and totalExpenses the sum of the amounts of the
  expense transactions (sums taken from left to right in JavaScript arithmetic);
  netSavings is totalIncome minus totalExpenses; largestExpense is 0 when there is no
  expense and otherwise the amount of an expense that no expense exceeds; and the
  category distribution has one entry per category that has an expense, whose value is
  the sum of the amounts of the expenses of that category.
\<close>

theorem analytics_correct:
  assumes "positive_amounts st"
  shows
  "totalIncome (getAnalyticsData st)
     = sum_amounts (filter (\<lambda>t. tx_type t = income) (transactions st)) \<and>
   totalExpenses (getAnalyticsData st)
     = sum_amounts (filter (\<lambda>t. tx_type t = expense) (transactions st)) \<and>
   netSavings (getAnalyticsData st)
     = num_sub (totalIncome (getAnalyticsData st)) (totalExpenses (getAnalyticsData st)) \<and>
   (if filter (\<lambda>t. tx_type t = expense) (transactions st) = []
    then largestExpense (getAnalyticsData st) = Fin 0
    else largestExpense (getAnalyticsData st)
           \<in> tx_amount ` set (filter (\<lambda>t. tx_type t = expense) (transactions st)) \<and>
         list_all (\<lambda>t. num_le (tx_amount t) (largestExpense (getAnalyticsData st)))
           (filter (\<lambda>t. tx_type t = expense) (transactions st))) \<and>
   (\<forall>c. map_of (map (\<lambda>s. (slice_name s, slice_value s)) (getCategoryDistribution st)) c
          = (if c \<in> tx_category ` set (filter (\<lambda>t. tx_type t = expense) (transactions st))
             then Some (sum_amounts (filter (\<lambda>t. tx_category t = c)
                          (filter (\<lambda>t. tx_type t = expense) (transactions st))))
             else None)) \<and>
   distinct (map slice_name (getCategoryDistribution st))"
proof -
  let ?ex = "filter (\<lambda>t. tx_type t = expense) (transactions st)"
  have pos: "list_all (\<lambda>t. num_greater (tx_amount t) (Fin 0)) ?ex"
    using assms by (rule positive_expenses)
  have a: "totalIncome (getAnalyticsData st)
             = sum_amounts (filter (\<lambda>t. tx_type t = income) (transactions st))"
    by (simp add: getAnalyticsData_def Let_def sum_amounts_def foldl_map)
  have b: "totalExpenses (getAnalyticsData st) = sum_amounts ?ex"
    by (simp add: getAnalyticsData_def Let_def sum_amounts_def foldl_map)
  have c: "netSavings (getAnalyticsData st)
     = num_sub (totalIncome (getAnalyticsData st)) (totalExpenses (getAnalyticsData st))"
    by (simp add: getAnalyticsData_def Let_def)
  have d: "largestExpense (getAnalyticsData st) = Fin 0" if "?ex = []"
    using that by (simp add: getAnalyticsData_def Let_def)
  have l: "largestExpense (getAnalyticsData st) = Math_max (map tx_amount ?ex)" if "?ex \<noteq> []"
    using that by (simp add: getAnalyticsData_def Let_def)
  have nn: "list_all (\<lambda>x. x \<noteq> NaN) (map tx_amount ?ex)"
    using pos by (auto simp add: list_all_iff dest: positive_not_NaN)
  have e: "largestExpense (getAnalyticsData st) \<in> tx_amount ` set ?ex \<and>
           list_all (\<lambda>t. num_le (tx_amount t) (largestExpense (getAnalyticsData st))) ?ex"
    if ne: "?ex \<noteq> []"
  proof -
    have m: "map tx_amount ?ex \<noteq> []" using ne by simp
    from Math_max_is_maximum[OF m nn] show ?thesis
      by (simp add: l[OF ne] list_all_iff)
  qed
  have f: "map_of (map (\<lambda>s. (slice_name s, slice_value s)) (getCategoryDistribution st)) c
          = (if c \<in> tx_category ` set ?ex
             then Some (sum_amounts (filter (\<lambda>t. tx_category t = c) ?ex)) else None)" for c
    unfolding slices_of_distribution expensesByCategory_def
    by (rule by_category_lookup[OF pos])
  have g: "distinct (map slice_name (getCategoryDistribution st))"
    unfolding slice_names_of_distribution expensesByCategory_def
    by (rule by_category_distinct)
  have h: "if ?ex = []
    then largestExpense (getAnalyticsData st) = Fin 0
    else largestExpense (getAnalyticsData st) \<in> tx_amount ` set ?ex \<and>
         list_all (\<lambda>t. num_le (tx_amount t) (largestExpense (getAnalyticsData st))) ?ex"
  proof (cases "?ex = []")
    case True
    then show ?thesis using d by simp
  next
    case False
    then show ?thesis using e by simp
  qed
  show ?thesis
    by (intro conjI allI a b c h f g)
qed

theorem analytics_correct_witness:
  "positive_amounts analytics_example \<and>
   totalIncome (getAnalyticsData analytics_example) = Fin 1000 \<and>
   totalExpenses (getAnalyticsData analytics_example) = Fin 250 \<and>
   netSavings (getAnalyticsData analytics_example) = Fin 750 \<and>
   largestExpense (getAnalyticsData analytics_example) = Fin 200 \<and>
   map_of (map (\<lambda>s. (slice_name s, slice_value s)) (getCategoryDistribution analytics_example))
     Shopping = Some (Fin 200) \<and>
   map_of (map (\<lambda>s. (slice_name s, slice_value s)) (getCategoryDistribution analytics_example))
     Work = Some (Fin 50) \<and>
   map_of (map (\<lambda>s. (slice_name s, slice_value s)) (getCategoryDistribution analytics_example))
     Home = None"
proof -
  have p: "positive_amounts analytics_example"
    by (simp add: positive_amounts_def analytics_example_def wallet_init_def num_greater_def)
  note t = analytics_correct[OF p, unfolded analytics_example_expenses analytics_example_incomes]
  have i: "totalIncome (getAnalyticsData analytics_example) = Fin 1000"
    using t by (simp add: sum_amounts_def round64_numeral)
  have e: "totalExpenses (getAnalyticsData analytics_example) = Fin 250"
    using t by (simp add: sum_amounts_def round64_numeral)
  have "netSavings (getAnalyticsData analytics_example) = num_sub (Fin 1000) (Fin 250)"
    using t i e by simp
  then have n: "netSavings (getAnalyticsData analytics_example) = Fin 750"
    by (simp add: num_sub_def round64_numeral)
  have "largestExpense (getAnalyticsData analytics_example) \<in> {Fin 200, Fin 50} \<and>
        num_le (Fin 200) (largestExpense (getAnalyticsData analytics_example))"
    using t by simp
  then have l: "largestExpense (getAnalyticsData analytics_example) = Fin 200"
    by (auto simp add: num_le_def isNaN_def)
  have s: "map_of (map (\<lambda>s. (slice_name s, slice_value s))
             (getCategoryDistribution analytics_example)) Shopping = Some (Fin 200)"
    using t by (simp add: sum_amounts_def round64_numeral)
  have w: "map_of (map (\<lambda>s. (slice_name s, slice_value s))
             (getCategoryDistribution analytics_example)) Work = Some (Fin 50)"
    using t by (simp add: sum_amounts_def round64_numeral)
  have h: "map_of (map (\<lambda>s. (slice_name s, slice_value s))
             (getCategoryDistribution analytics_example)) Home = None"
    using t by simp
  show ?thesis
    by (intro conjI p i e n l s w h)
qed

section \<open>The balance and the net savings\<close>

subsection \<open>Whole amounts\<close>

lemma num_add_int:
  "\<bar>a + b\<bar> \<le> 2 ^ 53 \<Longrightarrow> num_add (Fin (of_int a)) (Fin (of_int b)) = Fin (of_int (a + b))"
  using round64_int[of "a + b"] by simp

lemma num_sub_int:
  "\<bar>a - b\<bar> \<le> 2 ^ 53 \<Longrightarrow> num_sub (Fin (of_int a)) (Fin (of_int b)) = Fin (of_int (a - b))"
  using round64_int[of "a - b"] by (simp add: num_sub_def)

lemma whole_amount_units:
  assumes "whole_amount (tx_amount t)"
  shows "tx_amount t = Fin (of_int (units t))" and "0 < units t"
    and "exact_value (tx_amount t) = of_int (units t)"
  using assms by (auto simp add: whole_amount_def units_def exact_value_def split: number.splits)

lemma exact_total_units:
  "list_all (\<lambda>t. whole_amount (tx_amount t)) xs \<Longrightarrow>
     exact_total xs = of_int (sum_list (map units xs))"
  by (induction xs) (simp_all add: exact_total_def whole_amount_units(3))

lemma units_nonneg_total:
  "list_all (\<lambda>t. whole_amount (tx_amount t)) xs \<Longrightarrow> 0 \<le> sum_list (map units xs)"
  by (induction xs) (auto dest: whole_amount_units(2))

lemma sum_fold_units:
  assumes "list_all (\<lambda>t. whole_amount (tx_amount t)) xs"
    and "0 \<le> a" and "a + sum_list (map units xs) \<le> 2 ^ 53"
  shows "foldl (\<lambda>sum t. num_add sum (tx_amount t)) (Fin (of_int a)) xs
           = Fin (of_int (a + sum_list (map units xs)))"
  using assms
proof (induction xs arbitrary: a)
  case Nil
  then show ?case by simp
next
  case (Cons x xs)
  from Cons.prems(1) have wx: "whole_amount (tx_amount x)"
    and wxs: "list_all (\<lambda>t. whole_amount (tx_amount t)) xs" by simp_all
  note u = whole_amount_units[OF wx]
  have rest: "0 \<le> sum_list (map units xs)" by (rule units_nonneg_total[OF wxs])
  have small: "\<bar>a + units x\<bar> \<le> 2 ^ 53"
    using Cons.prems(2,3) u(2) rest by simp
  have step: "num_add (Fin (of_int a)) (tx_amount x) = Fin (of_int (a + units x))"
    unfolding u(1) by (rule num_add_int[OF small])
  have "foldl (\<lambda>sum t. num_add sum (tx_amount t)) (Fin (of_int (a + units x))) xs
          = Fin (of_int (a + units x + sum_list (map units xs)))"
    using Cons.prems(2,3) u(2) by (intro Cons.IH[OF wxs]) simp_all
  then show ?case by (simp add: step add.assoc)
qed

lemma balance_fold_units:
  assumes "list_all (\<lambda>t. whole_amount (tx_amount t)) xs"
    and "\<bar>b\<bar> + sum_list (map units xs) \<le> 2 ^ 53"
  shows "foldl (\<lambda>balance transaction.
                  if tx_type transaction = income
                  then num_add balance (tx_amount transaction)
                  else num_sub balance (tx_amount transaction))
           (Fin (of_int b)) xs
         = Fin (of_int (b + sum_list (map units (filter (\<lambda>t. tx_type t = income) xs))
                          - sum_list (map units (filter (\<lambda>t. tx_type t = expense) xs))))"
  using assms
proof (induction xs arbitrary: b)
  case Nil
  then show ?case by simp
next
  case (Cons x xs)
  from Cons.prems(1) have wx: "whole_amount (tx_amount x)"
    and wxs: "list_all (\<lambda>t. whole_amount (tx_amount t)) xs" by simp_all
  note u = whole_amount_units[OF wx]
  have rest: "0 \<le> sum_list (map units xs)" by (rule units_nonneg_total[OF wxs])
  show ?case
  proof (cases "tx_type x")
    case income
    have small: "\<bar>b + units x\<bar> \<le> 2 ^ 53"
      using Cons.prems(2) u(2) rest by simp
    have step: "num_add (Fin (of_int b)) (tx_amount x) = Fin (of_int (b + units x))"
      unfolding u(1) by (rule num_add_int[OF small])
    have bound: "\<bar>b + units x\<bar> + sum_list (map units xs) \<le> 2 ^ 53"
      using Cons.prems(2) u(2) by simp
    show ?thesis
      using Cons.IH[OF wxs bound] income by (simp add: step algebra_simps)
  next
    case expense
    have small: "\<bar>b - units x\<bar> \<le> 2 ^ 53"
      using Cons.prems(2) u(2) rest by simp
    have step: "num_sub (Fin (of_int b)) (tx_amount x) = Fin (of_int (b - units x))"
      unfolding u(1) by (rule num_sub_int[OF small])
    have bound: "\<bar>b - units x\<bar> + sum_list (map units xs) \<le> 2 ^ 53"
      using Cons.prems(2) u(2) by simp
    show ?thesis
      using Cons.IH[OF wxs bound] expense by (simp add: step algebra_simps)
  qed
qed

lemma units_split:
  "sum_list (map units (filter (\<lambda>t. tx_type t = income) xs))
     + sum_list (map units (filter (\<lambda>t. tx_type t = expense) xs)) = sum_list (map units xs)"
proof (induction xs)
  case Nil
  then show ?case by simp
next
  case (Cons x xs)
  then show ?case by (cases "tx_type x") simp_all
qed

subsection \<open>An income of 0.1, an expense of 0.3, an income of 0.2\<close>

lemma parse_tenth: "round64 (1 / 10) = tenth"
  using round64_pos_eval[of "-56" "1/10"] by (simp add: round_eval tenth_def)

lemma parse_fifth: "round64 (2 / 10) = fifth"
  using round64_pos_eval[of "-55" "1/5"] by (simp add: round_eval fifth_def)

lemma parse_three_tenths: "round64 (3 / 10) = three_tenths"
  using round64_pos_eval[of "-54" "3/10"] by (simp add: round_eval three_tenths_def)

lemma r_tenth: "round64 (3602879701896397 / 36028797018963968) = Fin (3602879701896397 / 36028797018963968)"
  using round64_pos_eval[of "-56" "3602879701896397 / 36028797018963968"] by (simp add: round_eval)

lemma r_three_tenths: "round64 (5404319552844595 / 18014398509481984) = Fin (5404319552844595 / 18014398509481984)"
  using round64_pos_eval[of "-54" "5404319552844595 / 18014398509481984"] by (simp add: round_eval)

lemma r_minus_fifth:
  "round64 (- (7205759403792793 / 36028797018963968)) = Fin (- (7205759403792793 / 36028797018963968))"
proof -
  have "round64 (7205759403792793 / 36028797018963968) = Fin (7205759403792793 / 36028797018963968)"
    using round64_pos_eval[of "-55" "7205759403792793 / 36028797018963968"] by (simp add: round_eval)
  then show ?thesis by (rule round64_minus_Fin)
qed

lemma r_ulp55: "round64 (1 / 36028797018963968) = Fin (1 / 36028797018963968)"
  using round64_pos_eval[of "-107" "1 / 36028797018963968"] by (simp add: round_eval)

lemma r_ulp54: "round64 (1 / 18014398509481984) = Fin (1 / 18014398509481984)"
  using round64_pos_eval[of "-106" "1 / 18014398509481984"] by (simp add: round_eval)

lemma r_income_sum:
  "round64 (10808639105689191 / 36028797018963968) = Fin (5404319552844596 / 18014398509481984)"
  using round64_pos_eval[of "-54" "10808639105689191 / 36028797018963968"] by (simp add: round_eval)

lemma balance_rounding_example: "getCurrentBalance rounding_example = Fin (1 / 36028797018963968)"
  by (simp add: getCurrentBalance_def rounding_example_def wallet_init_def tenth_def fifth_def
        three_tenths_def num_sub_def r_tenth r_minus_fifth r_ulp55)

lemma net_rounding_example:
  "netSavings (getAnalyticsData rounding_example) = Fin (1 / 18014398509481984)"
  using r_income_sum
  by (simp add: getAnalyticsData_def Let_def rounding_example_def wallet_init_def tenth_def
        fifth_def three_tenths_def num_sub_def r_tenth r_three_tenths r_ulp54)

text \<open>
  C9 (as amended). When every amount is a whole number and the amounts add up to at most
  \<open>2 ^ 53\<close>, the balance of the header (one fold that adds incomes and subtracts
  expenses) equals the net savings of the analytics (total income minus total expenses):
  no operation rounds. In general the two are computed by different sequences of
  rounded operations and can differ.
\<close>

theorem balance_equals_net_savings_whole:
  assumes "whole_amounts st" and "exact_total (transactions st) \<le> 2 ^ 53"
  shows "getCurrentBalance st = netSavings (getAnalyticsData st)"
proof -
  let ?xs = "transactions st"
  let ?inc = "filter (\<lambda>t. tx_type t = income) ?xs"
  let ?exp = "filter (\<lambda>t. tx_type t = expense) ?xs"
  let ?I = "sum_list (map units ?inc)"
  let ?E = "sum_list (map units ?exp)"
  have w: "list_all (\<lambda>t. whole_amount (tx_amount t)) ?xs"
    using assms(1) by (simp add: whole_amounts_def)
  have wi: "list_all (\<lambda>t. whole_amount (tx_amount t)) ?inc"
    and we: "list_all (\<lambda>t. whole_amount (tx_amount t)) ?exp"
    using w by (simp_all add: list_all_iff)
  have "(of_int (sum_list (map units ?xs)) :: rat) \<le> of_int (2 ^ 53)"
    using assms(2) exact_total_units[OF w] by simp
  then have total: "sum_list (map units ?xs) \<le> 2 ^ 53"
    by (simp only: of_int_le_iff)
  have I0: "0 \<le> ?I" and E0: "0 \<le> ?E"
    by (rule units_nonneg_total[OF wi], rule units_nonneg_total[OF we])
  have split: "?I + ?E = sum_list (map units ?xs)" by (rule units_split)
  have bal: "getCurrentBalance st = Fin (of_int (?I - ?E))"
    using balance_fold_units[OF w, of 0] total by (simp add: getCurrentBalance_def)
  have inc: "foldl (\<lambda>sum t. num_add sum (tx_amount t)) (Fin 0) ?inc = Fin (of_int ?I)"
    using sum_fold_units[OF wi, of 0] total split E0 by simp
  have exp: "foldl (\<lambda>sum t. num_add sum (tx_amount t)) (Fin 0) ?exp = Fin (of_int ?E)"
    using sum_fold_units[OF we, of 0] total split I0 by simp
  have "\<bar>?I - ?E\<bar> \<le> 2 ^ 53" using total split I0 E0 by linarith
  then have "num_sub (Fin (of_int ?I)) (Fin (of_int ?E)) = Fin (of_int (?I - ?E))"
    by (rule num_sub_int)
  then have "netSavings (getAnalyticsData st) = Fin (of_int (?I - ?E))"
    by (simp add: getAnalyticsData_def Let_def inc exp)
  with bal show ?thesis by simp
qed

theorem balance_equals_net_savings_whole_witness:
  "whole_amounts analytics_example \<and>
   exact_total (transactions analytics_example) \<le> 2 ^ 53 \<and>
   getCurrentBalance analytics_example = netSavings (getAnalyticsData analytics_example)"
proof -
  have w: "whole_amounts analytics_example"
    by (simp add: whole_amounts_def whole_amount_def analytics_example_def wallet_init_def)
  have t: "exact_total (transactions analytics_example) \<le> 2 ^ 53"
    by (simp add: exact_total_def exact_value_def analytics_example_def wallet_init_def)
  from balance_equals_net_savings_whole[OF w t] w t show ?thesis
    by (intro conjI)
qed

theorem balance_differs_from_net_savings_counterexample:
  "getCurrentBalance rounding_example = Fin (1 / 2 ^ 55) \<and>
   netSavings (getAnalyticsData rounding_example) = Fin (1 / 2 ^ 54) \<and>
   getCurrentBalance rounding_example \<noteq> netSavings (getAnalyticsData rounding_example)"
  by (simp add: balance_rounding_example net_rounding_example)


end
